theory Spec2Isabelle
  imports Complex_Main "HOL-Library.AList"
begin

section \<open>Task orchestration of the spreadsheet translator\<close>

text \<open>
  A shallow embedding of \<^verbatim>\<open>web_translator.py\<close>: the task registry \<^verbatim>\<open>TASKS\<close>, the
  worker \<^verbatim>\<open>_run_task\<close>, the cancel handler \<^verbatim>\<open>task_cancel\<close>, the progress stream
  \<^verbatim>\<open>sse_progress\<close> and the cleanup thread of \<^verbatim>\<open>_schedule_state_cleanup\<close>.
  Every access to \<^verbatim>\<open>TASKS\<close> happens under \<^verbatim>\<open>TASKS_LOCK\<close>, so each such access is one
  atomic step of the thread that makes it; threads interleave between these steps.
\<close>

subsection \<open>Python values and dictionaries\<close>

text \<open>
  The values the program stores in a task dictionary: \<^verbatim>\<open>str\<close>, \<^verbatim>\<open>int\<close>, \<^verbatim>\<open>bool\<close> and the
  \<^verbatim>\<open>float\<close> of \<^verbatim>\<open>time.time()\<close>. Floats are taken as exact real numbers, strings as the
  bytes of their UTF-8 encoding.
\<close>

datatype pyval = VStr string | VInt int | VBool bool | VFloat real

text \<open>A \<^verbatim>\<open>dict\<close> with string keys, in insertion order.\<close>

type_synonym pydict = "(string \<times> pyval) list"

type_synonym task_id = string

text \<open>\<^verbatim>\<open>TASKS\<close>: task identifier to the task's dictionary.\<close>

type_synonym registry = "task_id \<rightharpoonup> pydict"

text \<open>\<^verbatim>\<open>d.get(k)\<close>; \<open>None\<close> is Python's \<^verbatim>\<open>None\<close>.\<close>

definition dict_get :: "pydict \<Rightarrow> string \<Rightarrow> pyval option" where
  "dict_get d k = map_of d k"

text \<open>\<^verbatim>\<open>d.update(kv)\<close>: an existing key keeps its place, a new key goes to the end.\<close>

definition dict_update :: "pydict \<Rightarrow> pydict \<Rightarrow> pydict" where
  "dict_update d kv = fold (\<lambda>(k, v). AList.update k v) kv d"

text \<open>Truth value of an object, as \<^verbatim>\<open>if x:\<close> tests it.\<close>

fun truthy :: "pyval \<Rightarrow> bool" where
  "truthy (VStr s) = (s \<noteq> [])"
| "truthy (VInt i) = (i \<noteq> 0)"
| "truthy (VBool b) = b"
| "truthy (VFloat r) = (r \<noteq> 0)"

definition truthy_opt :: "pyval option \<Rightarrow> bool" where
  "truthy_opt x = (case x of None \<Rightarrow> False | Some v \<Rightarrow> truthy v)"

subsection \<open>String literals of the program\<close>

text \<open>The Chinese literals, as UTF-8 bytes.\<close>

definition msg_reading :: string where
  \<comment> \<open>"reading the file..."\<close>
  "msg_reading = [CHR 0xE8, CHR 0xAF, CHR 0xBB, CHR 0xE5, CHR 0x8F, CHR 0x96, CHR 0xE6,
     CHR 0x96, CHR 0x87, CHR 0xE4, CHR 0xBB, CHR 0xB6] @ ''...''"

definition msg_empty_sheet :: string where
  \<comment> \<open>"empty worksheet"\<close>
  "msg_empty_sheet = [CHR 0xE7, CHR 0xA9, CHR 0xBA, CHR 0xE5, CHR 0xB7, CHR 0xA5, CHR 0xE4,
     CHR 0xBD, CHR 0x9C, CHR 0xE8, CHR 0xA1, CHR 0xA8]"

definition msg_no_title :: string where
  \<comment> \<open>"cannot find the Title column"\<close>
  "msg_no_title = [CHR 0xE6, CHR 0x89, CHR 0xBE, CHR 0xE4, CHR 0xB8, CHR 0x8D, CHR 0xE5,
     CHR 0x88, CHR 0xB0] @ '' Title '' @ [CHR 0xE5, CHR 0x88, CHR 0x97]"

definition msg_nothing :: string where
  \<comment> \<open>"nothing to translate"\<close>
  "msg_nothing = [CHR 0xE6, CHR 0x97, CHR 0xA0, CHR 0xE9, CHR 0x9C, CHR 0x80, CHR 0xE7,
     CHR 0xBF, CHR 0xBB, CHR 0xE8, CHR 0xAF, CHR 0x91]"

definition msg_canceled :: string where
  \<comment> \<open>"canceled"\<close>
  "msg_canceled = [CHR 0xE5, CHR 0xB7, CHR 0xB2, CHR 0xE5, CHR 0x8F, CHR 0x96, CHR 0xE6,
     CHR 0xB6, CHR 0x88]"

definition msg_translating :: string where
  \<comment> \<open>"translating"\<close>
  "msg_translating = [CHR 0xE7, CHR 0xBF, CHR 0xBB, CHR 0xE8, CHR 0xAF, CHR 0x91, CHR 0xE4,
     CHR 0xB8, CHR 0xAD]"

definition msg_finished :: string where
  \<comment> \<open>"translation finished, processed "\<close>
  "msg_finished = [CHR 0xE7, CHR 0xBF, CHR 0xBB, CHR 0xE8, CHR 0xAF, CHR 0x91, CHR 0xE5,
     CHR 0xAE, CHR 0x8C, CHR 0xE6, CHR 0x88, CHR 0x90, CHR 0xEF, CHR 0xBC, CHR 0x8C, CHR 0xE5,
     CHR 0x85, CHR 0xB1, CHR 0xE5, CHR 0xA4, CHR 0x84, CHR 0xE7, CHR 0x90, CHR 0x86] @ '' ''"

definition msg_rows :: string where
  \<comment> \<open>" rows"\<close>
  "msg_rows = '' '' @ [CHR 0xE8, CHR 0xA1, CHR 0x8C]"

definition output_suffix :: string where
  \<comment> \<open>"_(Chinese translation).xlsx"\<close>
  "output_suffix = ''_'' @ [CHR 0xE4, CHR 0xB8, CHR 0xAD, CHR 0xE6, CHR 0x96, CHR 0x87,
     CHR 0xE7, CHR 0xBF, CHR 0xBB, CHR 0xE8, CHR 0xAF, CHR 0x91] @ ''.xlsx''"

definition msg_not_exist :: string where
  \<comment> \<open>"the task does not exist"\<close>
  "msg_not_exist = [CHR 0xE4, CHR 0xBB, CHR 0xBB, CHR 0xE5, CHR 0x8A, CHR 0xA1, CHR 0xE4,
     CHR 0xB8, CHR 0x8D, CHR 0xE5, CHR 0xAD, CHR 0x98, CHR 0xE5, CHR 0x9C, CHR 0xA8]"

definition msg_canceling :: string where
  \<comment> \<open>"canceling..."\<close>
  "msg_canceling = [CHR 0xE5, CHR 0x8F, CHR 0x96, CHR 0xE6, CHR 0xB6, CHR 0x88, CHR 0xE4,
     CHR 0xB8, CHR 0xAD] @ ''...''"

definition msg_already_over :: string where
  \<comment> \<open>"the task is already over"\<close>
  "msg_already_over = [CHR 0xE4, CHR 0xBB, CHR 0xBB, CHR 0xE5, CHR 0x8A, CHR 0xA1, CHR 0xE5,
     CHR 0xB7, CHR 0xB2, CHR 0xE7, CHR 0xBB, CHR 0x93, CHR 0xE6, CHR 0x9D, CHR 0x9F]"

definition msg_cancel_requested :: string where
  \<comment> \<open>"cancellation requested"\<close>
  "msg_cancel_requested = [CHR 0xE5, CHR 0xB7, CHR 0xB2, CHR 0xE8, CHR 0xAF, CHR 0xB7,
     CHR 0xE6, CHR 0xB1, CHR 0x82, CHR 0xE5, CHR 0x8F, CHR 0x96, CHR 0xE6, CHR 0xB6, CHR 0x88]"

subsection \<open>The registry operations\<close>

text \<open>
  \<^verbatim>\<open>_safe_update\<close>: \<^verbatim>\<open>st = TASKS.get(task_id); if st: st.update(kv)\<close>. A missing entry and
  an empty dictionary are both false.
\<close>

definition safe_update :: "task_id \<Rightarrow> pydict \<Rightarrow> registry \<Rightarrow> registry" where
  "safe_update task_id kv TASKS =
     (case TASKS task_id of
        None \<Rightarrow> TASKS
      | Some st \<Rightarrow> if st \<noteq> [] then TASKS(task_id \<mapsto> dict_update st kv) else TASKS)"

text \<open>\<^verbatim>\<open>_get_state\<close>: \<^verbatim>\<open>dict(TASKS.get(task_id) or {})\<close>, a copy; empty when there is no entry.\<close>

definition get_state :: "task_id \<Rightarrow> registry \<Rightarrow> pydict" where
  "get_state task_id TASKS = (case TASKS task_id of None \<Rightarrow> [] | Some st \<Rightarrow> st)"

text \<open>The body of \<^verbatim>\<open>_cleanup\<close> after its sleep: \<^verbatim>\<open>TASKS.pop(task_id, None)\<close>.\<close>

definition cleanup :: "task_id \<Rightarrow> registry \<Rightarrow> registry" where
  "cleanup task_id TASKS = TASKS(task_id := None)"

text \<open>\<^verbatim>\<open>st.get("status") in ("done", "error", "canceled")\<close>.\<close>

definition is_terminal :: "pydict \<Rightarrow> bool" where
  "is_terminal st =
     (dict_get st ''status'' \<in> set [Some (VStr ''done''), Some (VStr ''error''),
        Some (VStr ''canceled'')])"

subsection \<open>The HTTP handlers on the registry\<close>

text \<open>A response: the JSON body and the status code.\<close>

datatype response = Response pydict nat

definition not_found_response :: response where
  "not_found_response = Response [(''error'', VStr msg_not_exist)] 404"

text \<open>\<^verbatim>\<open>task_status\<close>: the snapshot, or 404.\<close>

definition task_status :: "task_id \<Rightarrow> registry \<Rightarrow> response" where
  "task_status task_id TASKS =
     (let st = get_state task_id TASKS
      in if st \<noteq> [] then Response st 200 else not_found_response)"

text \<open>The dictionary \<^verbatim>\<open>task_cancel\<close> writes.\<close>

definition cancel_kv :: pydict where
  "cancel_kv = [(''cancel_requested'', VBool True), (''message'', VStr msg_canceling)]"

text \<open>
  \<^verbatim>\<open>task_cancel\<close> run without interruption: the snapshot, the two early returns, then the
  update. (The snapshot and the update take the lock separately; the interleaved run is
  in the system model below.)
\<close>

definition task_cancel :: "task_id \<Rightarrow> registry \<Rightarrow> response \<times> registry" where
  "task_cancel task_id TASKS =
     (let st = get_state task_id TASKS
      in if st = [] then (not_found_response, TASKS)
         else if is_terminal st
           then (Response [(''success'', VBool True), (''message'', VStr msg_already_over)] 200,
                 TASKS)
         else (Response [(''success'', VBool True), (''message'', VStr msg_cancel_requested)] 202,
               safe_update task_id cancel_kv TASKS))"

text \<open>Sequences of registry operations on identifiers, as a client or a worker issues them.\<close>

datatype reg_op = Update task_id pydict | Snapshot task_id | Cancel task_id

datatype op_result = Updated | State pydict | Http response

fun apply_op :: "reg_op \<Rightarrow> registry \<Rightarrow> op_result \<times> registry" where
  "apply_op (Update task_id kv) TASKS = (Updated, safe_update task_id kv TASKS)"
| "apply_op (Snapshot task_id) TASKS = (State (get_state task_id TASKS), TASKS)"
| "apply_op (Cancel task_id) TASKS =
     (case task_cancel task_id TASKS of (r, TASKS') \<Rightarrow> (Http r, TASKS'))"

fun apply_ops :: "reg_op list \<Rightarrow> registry \<Rightarrow> op_result list \<times> registry" where
  "apply_ops [] TASKS = ([], TASKS)"
| "apply_ops (op # ops) TASKS =
     (case apply_op op TASKS of (r, TASKS') \<Rightarrow>
        (case apply_ops ops TASKS' of (rs, TASKS'') \<Rightarrow> (r # rs, TASKS'')))"

fun op_target :: "reg_op \<Rightarrow> task_id" where
  "op_target (Update task_id kv) = task_id"
| "op_target (Snapshot task_id) = task_id"
| "op_target (Cancel task_id) = task_id"

text \<open>What each operation answers when the identifier has no entry.\<close>

fun absent_result :: "reg_op \<Rightarrow> op_result" where
  "absent_result (Update task_id kv) = Updated"
| "absent_result (Snapshot task_id) = State []"
| "absent_result (Cancel task_id) = Http not_found_response"

subsection \<open>Library functions the worker calls\<close>

text \<open>\<^verbatim>\<open>str(n)\<close> of a non-negative integer.\<close>

fun str_nat :: "nat \<Rightarrow> string" where
  "str_nat n =
     (if n < 10 then [char_of (48 + n)]
      else str_nat (n div 10) @ [char_of (48 + n mod 10)])"

definition str_int :: "int \<Rightarrow> string" where
  "str_int i = (if i < 0 then ''-'' @ str_nat (nat (- i)) else str_nat (nat i))"

text \<open>
  \<^verbatim>\<open>posixpath\<close>: \<^verbatim>\<open>basename\<close>, \<^verbatim>\<open>dirname\<close>, and the root part of \<^verbatim>\<open>splitext\<close> on a name
  without separator (what \<^verbatim>\<open>basename\<close> returns).
\<close>

definition basename :: "string \<Rightarrow> string" where
  "basename p = rev (takeWhile (\<lambda>c. c \<noteq> CHR ''/'') (rev p))"

definition dirname :: "string \<Rightarrow> string" where
  "dirname p =
     (let head = rev (dropWhile (\<lambda>c. c \<noteq> CHR ''/'') (rev p))
      in if head \<noteq> [] \<and> list_ex (\<lambda>c. c \<noteq> CHR ''/'') head
         then rev (dropWhile (\<lambda>c. c = CHR ''/'') (rev head))
         else head)"

definition splitext_root :: "string \<Rightarrow> string" where
  "splitext_root p =
     (let r = dropWhile (\<lambda>c. c \<noteq> CHR ''.'') (rev p)
      in if r = [] then p
         else if list_ex (\<lambda>c. c \<noteq> CHR ''.'') (tl r) then rev (tl r)
         else p)"

text \<open>
  \<^verbatim>\<open>str.strip()\<close> removes, from both ends, the characters for which \<^verbatim>\<open>str.isspace()\<close>
  holds: U+0009 to U+000D, U+001C to U+0020, U+0085, U+00A0, U+1680, U+2000 to U+200A,
  U+2028, U+2029, U+202F, U+205F and U+3000. They are listed here in UTF-8, as texts are.
\<close>

definition space_chars :: "string list" where
  "space_chars =
     [[CHR 0x09], [CHR 0x0A], [CHR 0x0B], [CHR 0x0C], [CHR 0x0D],
      [CHR 0x1C], [CHR 0x1D], [CHR 0x1E], [CHR 0x1F], [CHR 0x20],
      [CHR 0xC2, CHR 0x85], [CHR 0xC2, CHR 0xA0],
      [CHR 0xE1, CHR 0x9A, CHR 0x80],
      [CHR 0xE2, CHR 0x80, CHR 0x80], [CHR 0xE2, CHR 0x80, CHR 0x81],
      [CHR 0xE2, CHR 0x80, CHR 0x82], [CHR 0xE2, CHR 0x80, CHR 0x83],
      [CHR 0xE2, CHR 0x80, CHR 0x84], [CHR 0xE2, CHR 0x80, CHR 0x85],
      [CHR 0xE2, CHR 0x80, CHR 0x86], [CHR 0xE2, CHR 0x80, CHR 0x87],
      [CHR 0xE2, CHR 0x80, CHR 0x88], [CHR 0xE2, CHR 0x80, CHR 0x89],
      [CHR 0xE2, CHR 0x80, CHR 0x8A],
      [CHR 0xE2, CHR 0x80, CHR 0xA8], [CHR 0xE2, CHR 0x80, CHR 0xA9],
      [CHR 0xE2, CHR 0x80, CHR 0xAF],
      [CHR 0xE2, CHR 0x81, CHR 0x9F],
      [CHR 0xE3, CHR 0x80, CHR 0x80]]"

definition starts_with :: "string \<Rightarrow> string \<Rightarrow> bool" where
  "starts_with s w = (take (length w) s = w)"

text \<open>
  The characters of \<open>ws\<close> removed from the front of a text; \<open>k\<close> counts the bytes still
  to drop of a character already recognised. In UTF-8 a character is recognised by its
  bytes at the front of the text and, read backwards, at its end.
\<close>

fun lstrip_with :: "string list \<Rightarrow> nat \<Rightarrow> string \<Rightarrow> string" where
  "lstrip_with ws k [] = []"
| "lstrip_with ws (Suc k) (c # cs) = lstrip_with ws k cs"
| "lstrip_with ws 0 (c # cs) =
     (case List.find (starts_with (c # cs)) ws of
        None \<Rightarrow> c # cs
      | Some w \<Rightarrow> lstrip_with ws (length w - 1) cs)"

definition strip :: "string \<Rightarrow> string" where
  "strip s = rev (lstrip_with (map rev space_chars) 0 (rev (lstrip_with space_chars 0 s)))"

text \<open>
  \<^verbatim>\<open>str.lower()\<close>, for the one use made of it, the comparison of its result with
  \<^verbatim>\<open>"title"\<close>: the letters A to Z go to a to z. Every other character that Python
  changes has a lower case outside ASCII, except U+0130 (to \<^verbatim>\<open>i\<close> followed by U+0307) and
  U+212A (to \<^verbatim>\<open>k\<close>); with any of them in the text the result differs from \<^verbatim>\<open>"title"\<close>
  in Python, and so it does here, where their bytes are left as they are.
\<close>

definition lower_char :: "char \<Rightarrow> char" where
  "lower_char c =
     (if 65 \<le> (of_char c :: nat) \<and> (of_char c :: nat) \<le> 90
      then char_of (of_char c + 32 :: nat) else c)"

definition lower :: "string \<Rightarrow> string" where
  "lower s = map lower_char s"

text \<open>Exceptions, with the text \<^verbatim>\<open>str(e)\<close> gives.\<close>

datatype exn = ValueError string | ZeroDivisionError string | OtherError string

fun exn_str :: "exn \<Rightarrow> string" where
  "exn_str (ValueError s) = s"
| "exn_str (ZeroDivisionError s) = s"
| "exn_str (OtherError s) = s"

text \<open>
  \<^verbatim>\<open>a / b\<close> and \<^verbatim>\<open>int(x)\<close> (truncation towards zero). The wording of the message of
  \<^verbatim>\<open>ZeroDivisionError\<close> depends on the operand types; one wording stands for all.
\<close>

definition py_truediv :: "real \<Rightarrow> real \<Rightarrow> exn + real" where
  "py_truediv a b =
     (if b = 0 then Inl (ZeroDivisionError ''division by zero'') else Inr (a / b))"

definition py_int :: "real \<Rightarrow> int" where
  "py_int x = (if 0 \<le> x then \<lfloor>x\<rfloor> else \<lceil>x\<rceil>)"

subsection \<open>The worksheet, as the worker observes it\<close>

text \<open>
  What \<^verbatim>\<open>openpyxl\<close> answers: the values of the cells of \<^verbatim>\<open>ws[1]\<close>, \<^verbatim>\<open>ws.max_row\<close>, and
  \<^verbatim>\<open>ws.cell(row=r, column=c).value\<close>. Rows and columns count from 1. The worker inserts
  its column to the right of the Title column and only writes to it, so the values it
  reads from the Title column are those of the loaded sheet.
\<close>

text \<open>
  The value of a cell: \<^verbatim>\<open>None\<close>, a text, an integer, or a value of another type (a
  float, a date, ...), which is given by the text \<^verbatim>\<open>str()\<close> makes of it: the worker
  uses a value only through \<^verbatim>\<open>str(cell.value)\<close>.
\<close>

datatype cellval = CNone | CStr string | CInt int | COther string

fun cell_str :: "cellval \<Rightarrow> string" where
  "cell_str CNone = ''None''"
| "cell_str (CStr s) = s"
| "cell_str (CInt i) = str_int i"
| "cell_str (COther s) = s"

record worksheet =
  first_row :: "cellval list"
  max_row :: nat
  cell_value :: "nat \<Rightarrow> nat \<Rightarrow> cellval"

text \<open>
  \<^verbatim>\<open>for idx, cell in enumerate(ws[1], 1): if str(cell.value).strip().lower() == "title"\<close>.
\<close>

fun find_title :: "nat \<Rightarrow> cellval list \<Rightarrow> nat option" where
  "find_title idx [] = None"
| "find_title idx (v # vs) =
     (if lower (strip (cell_str v)) = ''title'' then Some idx else find_title (Suc idx) vs)"

definition rows_to_translate :: "worksheet \<Rightarrow> nat \<Rightarrow> nat list" where
  "rows_to_translate ws title_col_idx =
     filter (\<lambda>r. strip (cell_str (cell_value ws r title_col_idx)) \<noteq> [])
       [2 ..< max_row ws + 1]"

subsection \<open>The worker \<^verbatim>\<open>_run_task\<close>\<close>

text \<open>
  What the world answers to one run of the worker: the outcome of \<^verbatim>\<open>load_workbook\<close>
  (an exception, or \<^verbatim>\<open>wb.active\<close>), an exception of the \<^verbatim>\<open>openpyxl\<close> calls of a unit of
  work (\<^verbatim>\<open>translate_text\<close> catches its own), an exception of \<^verbatim>\<open>wb.save\<close>, the readings of
  \<^verbatim>\<open>time.time()\<close>, and whether \<^verbatim>\<open>rmtree\<close> removes the scratch directory.
\<close>

record env =
  load_workbook :: "exn + worksheet option"
  unit_exn :: "nat \<Rightarrow> exn option"
  save_exn :: "exn option"
  time_started :: real
  time_loop :: real
  time_unit :: "nat \<Rightarrow> real"
  time_finished :: real
  rmtree_removes :: bool

text \<open>
  Lines 56 to 79: load, find the Title column, list the rows. The result is the raised
  exception or \<^verbatim>\<open>total\<close>.
\<close>

definition prepare :: "env \<Rightarrow> exn + nat" where
  "prepare E =
     (case load_workbook E of
        Inl e \<Rightarrow> Inl e
      | Inr None \<Rightarrow> Inl (ValueError msg_empty_sheet)
      | Inr (Some ws) \<Rightarrow>
          (case find_title 1 (first_row ws) of
             None \<Rightarrow> Inl (ValueError msg_no_title)
           | Some title_col_idx \<Rightarrow> Inr (length (rows_to_translate ws title_col_idx))))"

text \<open>
  Lines 96 and 97:
  \<^verbatim>\<open>elapsed = max(time.time() - start, 1e-6)\<close>,
  \<^verbatim>\<open>eta = int((total - idx) / (idx / elapsed)) if idx else 0\<close>.
\<close>

definition eta_seconds :: "nat \<Rightarrow> nat \<Rightarrow> real \<Rightarrow> real \<Rightarrow> exn + int" where
  "eta_seconds total_n idx start now =
     (let elapsed = max (now - start) (1 / 1000000)
      in if idx \<noteq> 0
         then (case py_truediv (real idx) elapsed of
                 Inl e \<Rightarrow> Inl e
               | Inr rate \<Rightarrow>
                   (case py_truediv (real_of_int (int total_n - int idx)) rate of
                      Inl e \<Rightarrow> Inl e
                    | Inr q \<Rightarrow> Inr (py_int q)))
         else Inr 0)"

text \<open>Line 100: \<^verbatim>\<open>int(idx * 100 / total)\<close>.\<close>

definition percent_of :: "nat \<Rightarrow> nat \<Rightarrow> exn + int" where
  "percent_of total_n idx =
     (case py_truediv (real (idx * 100)) (real total_n) of
        Inl e \<Rightarrow> Inl e
      | Inr q \<Rightarrow> Inr (py_int q))"

text \<open>The dictionaries the worker passes to \<^verbatim>\<open>_safe_update\<close>.\<close>

definition running_kv :: "env \<Rightarrow> pydict" where
  "running_kv E = [(''status'', VStr ''running''), (''message'', VStr msg_reading),
     (''percent'', VInt 0), (''started_at'', VFloat (time_started E))]"

definition total_kv :: "nat \<Rightarrow> pydict" where
  "total_kv total_n = [(''total'', VInt (int total_n)), (''current'', VInt 0)]"

definition nothing_kv :: pydict where
  "nothing_kv = [(''status'', VStr ''done''), (''percent'', VInt 100),
     (''message'', VStr msg_nothing)]"

definition canceled_kv :: pydict where
  "canceled_kv = [(''status'', VStr ''canceled''), (''message'', VStr msg_canceled)]"

definition progress_kv :: "nat \<Rightarrow> nat \<Rightarrow> int \<Rightarrow> int \<Rightarrow> pydict" where
  "progress_kv total_n idx percent eta =
     [(''current'', VInt (int idx)), (''percent'', VInt percent), (''eta_seconds'', VInt eta),
      (''message'',
         VStr (msg_translating @ ''('' @ str_nat idx @ ''/'' @ str_nat total_n @ '')''))]"

definition output_filename :: "string \<Rightarrow> string" where
  "output_filename file_path = splitext_root (basename file_path) @ output_suffix"

definition done_kv :: "env \<Rightarrow> string \<Rightarrow> nat \<Rightarrow> pydict" where
  "done_kv E file_path total_n =
     [(''status'', VStr ''done''), (''percent'', VInt 100), (''eta_seconds'', VInt 0),
      (''message'', VStr (msg_finished @ str_nat total_n @ msg_rows)),
      (''download_filename'', VStr (output_filename file_path)),
      (''finished_at'', VFloat (time_finished E))]"

definition error_kv :: "env \<Rightarrow> exn \<Rightarrow> pydict" where
  "error_kv E e = [(''status'', VStr ''error''), (''message'', VStr (exn_str e)),
     (''finished_at'', VFloat (time_finished E))]"

text \<open>
  Where the worker thread stands. Each position is followed by one access to the
  registry (or by the \<^verbatim>\<open>finally\<close> block), which is the next step of the thread:
  \<^item> \<open>Start\<close>: before line 54;
  \<^item> \<open>Load\<close>: before lines 56 to 80;
  \<^item> \<open>Rows\<close>: before the test of line 82;
  \<^item> \<open>Check idx\<close>: before the \<^verbatim>\<open>_get_state\<close> of line 88, in iteration \<open>idx\<close>;
  \<^item> \<open>Canceling\<close>: before the update of line 89;
  \<^item> \<open>Unit idx\<close>: before lines 92 to 103 of iteration \<open>idx\<close>;
  \<^item> \<open>Save\<close>: before lines 106 to 117;
  \<^item> \<open>Finally\<close>: before the \<^verbatim>\<open>finally\<close> block;
  \<^item> \<open>Exit\<close>: the thread has returned.
\<close>

datatype pc = Start | Load | Rows | Check nat | Canceling | Unit nat | Save | Finally | Exit

record worker =
  pc :: pc
  total_w :: nat
  start_w :: real

text \<open>The \<^verbatim>\<open>except Exception as e\<close> handler of line 119, then on to \<^verbatim>\<open>finally\<close>.\<close>

definition on_exception ::
  "env \<Rightarrow> task_id \<Rightarrow> exn \<Rightarrow> worker \<Rightarrow> registry \<Rightarrow> worker \<times> registry" where
  "on_exception E task_id e w R =
     (w\<lparr>pc := Finally\<rparr>, safe_update task_id (error_kv E e) R)"

text \<open>Lines 92 to 104 of iteration \<open>idx\<close>.\<close>

definition unit_of_work ::
  "env \<Rightarrow> task_id \<Rightarrow> nat \<Rightarrow> worker \<Rightarrow> registry \<Rightarrow> worker \<times> registry" where
  "unit_of_work E task_id idx w R =
     (case unit_exn E idx of
        Some e \<Rightarrow> on_exception E task_id e w R
      | None \<Rightarrow>
          (case eta_seconds (total_w w) idx (start_w w) (time_unit E idx) of
             Inl e \<Rightarrow> on_exception E task_id e w R
           | Inr eta \<Rightarrow>
               (case percent_of (total_w w) idx of
                  Inl e \<Rightarrow> on_exception E task_id e w R
                | Inr percent \<Rightarrow>
                    (w\<lparr>pc := (if idx < total_w w then Check (Suc idx) else Save)\<rparr>,
                     safe_update task_id (progress_kv (total_w w) idx percent eta) R))))"

text \<open>One step of the worker thread inside the \<^verbatim>\<open>try\<close> block (and line 54 before it).\<close>

definition worker_step ::
  "env \<Rightarrow> task_id \<Rightarrow> string \<Rightarrow> worker \<Rightarrow> registry \<Rightarrow> worker \<times> registry" where
  "worker_step E task_id file_path w R =
     (case pc w of
        Start \<Rightarrow> (w\<lparr>pc := Load\<rparr>, safe_update task_id (running_kv E) R)
      | Load \<Rightarrow>
          (case prepare E of
             Inl e \<Rightarrow> on_exception E task_id e w R
           | Inr n \<Rightarrow> (w\<lparr>pc := Rows, total_w := n\<rparr>, safe_update task_id (total_kv n) R))
      | Rows \<Rightarrow>
          (if total_w w = 0 then (w\<lparr>pc := Finally\<rparr>, safe_update task_id nothing_kv R)
           else (w\<lparr>pc := Check 1, start_w := time_loop E\<rparr>, R))
      | Check idx \<Rightarrow>
          (if truthy_opt (dict_get (get_state task_id R) ''cancel_requested'')
           then (w\<lparr>pc := Canceling\<rparr>, R)
           else (w\<lparr>pc := Unit idx\<rparr>, R))
      | Canceling \<Rightarrow> (w\<lparr>pc := Finally\<rparr>, safe_update task_id canceled_kv R)
      | Unit idx \<Rightarrow> unit_of_work E task_id idx w R
      | Save \<Rightarrow>
          (case save_exn E of
             Some e \<Rightarrow> on_exception E task_id e w R
           | None \<Rightarrow>
               (w\<lparr>pc := Finally\<rparr>, safe_update task_id (done_kv E file_path (total_w w)) R))
      | Finally \<Rightarrow> (w, R)
      | Exit \<Rightarrow> (w, R))"

subsection \<open>The threads of one task\<close>

text \<open>\<^verbatim>\<open>start_background_task\<close>: the entry it stores under the fresh identifier.\<close>

definition initial_state :: "string \<Rightarrow> string \<Rightarrow> pydict" where
  "initial_state file_path filename =
     [(''status'', VStr ''idle''), (''percent'', VInt 0), (''message'', VStr []),
      (''filename'', VStr filename), (''total'', VInt 0), (''current'', VInt 0),
      (''cancel_requested'', VBool False), (''tmp_dir'', VStr (dirname file_path))]"

definition start_background_task :: "string \<Rightarrow> string \<Rightarrow> task_id \<Rightarrow> registry \<Rightarrow> registry" where
  "start_background_task file_path filename task_id R =
     R(task_id \<mapsto> initial_state file_path filename)"

text \<open>
  The threads that work on one task: its worker, the \<^verbatim>\<open>task_cancel\<close> calls for it, and its
  \<^verbatim>\<open>_cleanup\<close> thread. Identifiers are fresh (\<^verbatim>\<open>uuid4\<close>), so the threads of other tasks
  read and write other keys of \<^verbatim>\<open>TASKS\<close>; \<^verbatim>\<open>task_status\<close> and \<^verbatim>\<open>sse_progress\<close> only read.
\<close>

text \<open>
  The state of the system as far as one task is concerned: the registry, the worker
  thread, the \<^verbatim>\<open>task_cancel\<close> calls that have passed their checks (lines 207 to 211) and
  have not yet made their update (line 212), the \<^verbatim>\<open>_cleanup\<close> threads started and still
  asleep, the calls of \<^verbatim>\<open>rmtree\<close> made, whether the scratch directory exists, and the
  \<^verbatim>\<open>_cleanup\<close> threads started so far.
\<close>

record system =
  TASKS :: registry
  worker :: worker
  cancel_handlers :: nat
  cleanup_threads :: nat
  rmtree_calls :: nat
  scratch_dir :: bool
  cleanups_started :: nat

definition init_system :: "string \<Rightarrow> string \<Rightarrow> task_id \<Rightarrow> registry \<Rightarrow> system" where
  "init_system file_path filename task_id R =
     \<lparr>TASKS = start_background_task file_path filename task_id R,
      worker = \<lparr>pc = Start, total_w = 0, start_w = 0\<rparr>,
      cancel_handlers = 0, cleanup_threads = 0, rmtree_calls = 0, scratch_dir = True,
      cleanups_started = 0\<rparr>"

text \<open>
  The \<^verbatim>\<open>finally\<close> block: \<^verbatim>\<open>rmtree(base, ignore_errors=True)\<close> if the directory exists,
  any exception passed over, then \<^verbatim>\<open>_schedule_state_cleanup\<close>.
\<close>

definition finalize :: "env \<Rightarrow> system \<Rightarrow> system" where
  "finalize E s =
     (let s1 = (if scratch_dir s
                then s\<lparr>rmtree_calls := Suc (rmtree_calls s),
                       scratch_dir := \<not> rmtree_removes E\<rparr>
                else s)
      in s1\<lparr>cleanup_threads := Suc (cleanup_threads s1),
             cleanups_started := Suc (cleanups_started s1),
             worker := (worker s1)\<lparr>pc := Exit\<rparr>\<rparr>)"

text \<open>
  The steps of the threads:
  \<^item> \<open>WorkerStep\<close>: the worker's next step;
  \<^item> \<open>CancelCheck\<close>: a \<^verbatim>\<open>task_cancel\<close> call takes its snapshot and returns early or goes on;
  \<^item> \<open>CancelUpdate\<close>: a \<^verbatim>\<open>task_cancel\<close> call that went on makes its update;
  \<^item> \<open>CleanupPop\<close>: a \<^verbatim>\<open>_cleanup\<close> thread wakes up and pops the entry.
  A step that no thread can take leaves the state as it is.
\<close>

datatype event = WorkerStep | CancelCheck | CancelUpdate | CleanupPop

definition step :: "env \<Rightarrow> task_id \<Rightarrow> string \<Rightarrow> event \<Rightarrow> system \<Rightarrow> system" where
  "step E task_id file_path ev s =
     (case ev of
        WorkerStep \<Rightarrow>
          (if pc (worker s) = Finally then finalize E s
           else (case worker_step E task_id file_path (worker s) (TASKS s) of
                   (w, R) \<Rightarrow> s\<lparr>TASKS := R, worker := w\<rparr>))
      | CancelCheck \<Rightarrow>
          (let st = get_state task_id (TASKS s)
           in if st = [] \<or> is_terminal st then s
              else s\<lparr>cancel_handlers := Suc (cancel_handlers s)\<rparr>)
      | CancelUpdate \<Rightarrow>
          (if cancel_handlers s = 0 then s
           else s\<lparr>TASKS := safe_update task_id cancel_kv (TASKS s),
                  cancel_handlers := cancel_handlers s - 1\<rparr>)
      | CleanupPop \<Rightarrow>
          (if cleanup_threads s = 0 then s
           else s\<lparr>TASKS := cleanup task_id (TASKS s),
                  cleanup_threads := cleanup_threads s - 1\<rparr>))"

text \<open>A schedule is the order in which the threads take their steps.\<close>

definition run :: "env \<Rightarrow> task_id \<Rightarrow> string \<Rightarrow> event list \<Rightarrow> system \<Rightarrow> system" where
  "run E task_id file_path schedule s = fold (step E task_id file_path) schedule s"

subsection \<open>The progress stream \<^verbatim>\<open>sse_progress\<close>\<close>

text \<open>
  A JSON value of a payload: \<^verbatim>\<open>null\<close>, a stored value, or the text
  \<^verbatim>\<open>f"/download/{v}"\<close> made from a stored value.
\<close>

datatype json = JNull | JVal pyval | JDownload pyval

text \<open>
  An event of the stream: \<^verbatim>\<open>data: ...\<close> alone, or \<^verbatim>\<open>event: progress\<close> with its data.
\<close>

datatype sse_event = Data "(string \<times> json) list" | Event string "(string \<times> json) list"

definition json_get :: "pydict \<Rightarrow> string \<Rightarrow> json" where
  "json_get state k = (case dict_get state k of None \<Rightarrow> JNull | Some v \<Rightarrow> JVal v)"

definition not_found_event :: "task_id \<Rightarrow> sse_event" where
  "not_found_event task_id =
     Data [(''task_id'', JVal (VStr task_id)), (''status'', JVal (VStr ''error'')),
           (''message'', JVal (VStr msg_not_exist))]"

definition progress_event :: "task_id \<Rightarrow> pydict \<Rightarrow> sse_event" where
  "progress_event task_id state =
     Event ''progress''
       [(''task_id'', JVal (VStr task_id)),
        (''status'', json_get state ''status''),
        (''percent'', json_get state ''percent''),
        (''eta_seconds'', json_get state ''eta_seconds''),
        (''message'', json_get state ''message''),
        (''download_url'',
           (case dict_get state ''download_filename'' of
              None \<Rightarrow> JNull
            | Some v \<Rightarrow> if truthy v then JDownload v else JNull)),
        (''filename'', json_get state ''filename''),
        (''started_at'', json_get state ''started_at''),
        (''finished_at'', json_get state ''finished_at''),
        (''duration_seconds'', json_get state ''duration_seconds'')]"

text \<open>
  The generator \<^verbatim>\<open>event_stream\<close>, run against the registry as it is at each of its
  polls. The result is what it has yielded and whether it has left its loop; with the
  polls used up and the loop not left, it is waiting for its next poll.
\<close>

fun event_stream :: "task_id \<Rightarrow> registry list \<Rightarrow> sse_event list \<times> bool" where
  "event_stream task_id [] = ([], False)"
| "event_stream task_id (R # later) =
     (let state = get_state task_id R
      in if state = [] then ([not_found_event task_id], True)
         else if is_terminal state then ([progress_event task_id state], True)
         else (case event_stream task_id later of
                 (evs, ended) \<Rightarrow> (progress_event task_id state # evs, ended)))"

text \<open>The status an event carries.\<close>

fun event_status :: "sse_event \<Rightarrow> json option" where
  "event_status (Data payload) = map_of payload ''status''"
| "event_status (Event name payload) = map_of payload ''status''"

definition terminal_event :: "sse_event \<Rightarrow> bool" where
  "terminal_event ev =
     (event_status ev \<in> set [Some (JVal (VStr ''done'')), Some (JVal (VStr ''error'')),
        Some (JVal (VStr ''canceled''))])"

subsection \<open>What holds in every reachable state\<close>

text \<open>A field of the task's entry, as a snapshot shows it; \<open>None\<close> when there is none.\<close>

definition fld :: "task_id \<Rightarrow> string \<Rightarrow> registry \<Rightarrow> pyval option" where
  "fld task_id k R = dict_get (get_state task_id R) k"

text \<open>The task has an entry (one that \<^verbatim>\<open>if st:\<close> accepts).\<close>

definition present :: "task_id \<Rightarrow> registry \<Rightarrow> bool" where
  "present task_id R = (get_state task_id R \<noteq> [])"

text \<open>A stored \<^verbatim>\<open>eta_seconds\<close> is an integer and not negative.\<close>

definition eta_ok :: "task_id \<Rightarrow> registry \<Rightarrow> bool" where
  "eta_ok task_id R =
     (case fld task_id ''eta_seconds'' R of
        None \<Rightarrow> True | Some (VInt n) \<Rightarrow> 0 \<le> n | Some _ \<Rightarrow> False)"

text \<open>The stored \<^verbatim>\<open>current\<close> is an integer.\<close>

definition current_ok :: "task_id \<Rightarrow> registry \<Rightarrow> bool" where
  "current_ok task_id R =
     (case fld task_id ''current'' R of Some (VInt c) \<Rightarrow> True | _ \<Rightarrow> False)"

text \<open>
  While the worker is between line 54 and its last update: the entry exists, no cleanup
  thread has been started, the status is \<^verbatim>\<open>running\<close>, and neither the download name nor
  \<^verbatim>\<open>finished_at\<close> is set.
\<close>

definition running_ok :: "task_id \<Rightarrow> system \<Rightarrow> bool" where
  "running_ok task_id s =
     (present task_id (TASKS s) \<and> cleanup_threads s = 0
      \<and> fld task_id ''status'' (TASKS s) = Some (VStr ''running'')
      \<and> fld task_id ''download_filename'' (TASKS s) = None
      \<and> fld task_id ''finished_at'' (TASKS s) = None
      \<and> eta_ok task_id (TASKS s) \<and> current_ok task_id (TASKS s))"

text \<open>In iteration \<open>idx\<close> of the loop, before its update.\<close>

definition loop_ok :: "task_id \<Rightarrow> nat \<Rightarrow> system \<Rightarrow> bool" where
  "loop_ok task_id idx s =
     (running_ok task_id s \<and> 1 \<le> idx \<and> idx \<le> total_w (worker s)
      \<and> fld task_id ''current'' (TASKS s) = Some (VInt (int idx - 1)))"

text \<open>After the worker's last update.\<close>

definition final_ok :: "task_id \<Rightarrow> registry \<Rightarrow> bool" where
  "final_ok task_id R =
     (is_terminal (get_state task_id R)
      \<and> (fld task_id ''status'' R = Some (VStr ''canceled'') \<longrightarrow>
           fld task_id ''finished_at'' R = None \<and> fld task_id ''download_filename'' R = None))"

text \<open>What holds at each position of the worker.\<close>

fun inv_at :: "pc \<Rightarrow> task_id \<Rightarrow> system \<Rightarrow> bool" where
  "inv_at Start task_id s =
     (present task_id (TASKS s) \<and> cleanup_threads s = 0
      \<and> fld task_id ''status'' (TASKS s) = Some (VStr ''idle'') \<and> eta_ok task_id (TASKS s)
      \<and> fld task_id ''download_filename'' (TASKS s) = None
      \<and> fld task_id ''finished_at'' (TASKS s) = None
      \<and> current_ok task_id (TASKS s))"
| "inv_at Load task_id s = running_ok task_id s"
| "inv_at Rows task_id s =
     (running_ok task_id s \<and> fld task_id ''current'' (TASKS s) = Some (VInt 0))"
| "inv_at (Check idx) task_id s = loop_ok task_id idx s"
| "inv_at Canceling task_id s = running_ok task_id s"
| "inv_at (Unit idx) task_id s = loop_ok task_id idx s"
| "inv_at Save task_id s = running_ok task_id s"
| "inv_at Finally task_id s =
     (present task_id (TASKS s) \<and> cleanup_threads s = 0
      \<and> final_ok task_id (TASKS s) \<and> eta_ok task_id (TASKS s))"
| "inv_at Exit task_id s =
     ((present task_id (TASKS s) \<longrightarrow> final_ok task_id (TASKS s))
      \<and> eta_ok task_id (TASKS s))"

definition inv :: "task_id \<Rightarrow> system \<Rightarrow> bool" where
  "inv task_id s = inv_at (pc (worker s)) task_id s"

subsection \<open>Example inputs\<close>

text \<open>
  A sheet with the columns \<^verbatim>\<open>Id\<close> and \<^verbatim>\<open>Title\<close> and \<open>n\<close> rows below the header, each with a
  title; a world in which nothing fails; and a freshly submitted task.
\<close>

definition example_sheet :: "nat \<Rightarrow> worksheet" where
  "example_sheet n =
     \<lparr>first_row = [CStr ''Id'', CStr '' Title ''], max_row = Suc n,
      cell_value = (\<lambda>r c. if c = 2 then CStr ''hello'' else CNone)\<rparr>"

definition example_env :: "nat \<Rightarrow> env" where
  "example_env n =
     \<lparr>load_workbook = Inr (Some (example_sheet n)), unit_exn = (\<lambda>idx. None), save_exn = None,
      time_started = 100, time_loop = 101, time_unit = (\<lambda>idx. 101 + real idx),
      time_finished = 110, rmtree_removes = True\<rparr>"

text \<open>
  A sheet whose first header cell is \<^verbatim>\<open>Title\<close> followed by U+00A0, and whose cells in
  that column hold U+3000 only; the second column is headed \<^verbatim>\<open>Title\<close> and holds text.
\<close>

definition blank_title_sheet :: worksheet where
  "blank_title_sheet =
     \<lparr>first_row = [CStr (''Title'' @ [CHR 0xC2, CHR 0xA0]), CStr ''Title''], max_row = 3,
      cell_value = (\<lambda>r c. if c = 1 then CStr [CHR 0xE3, CHR 0x80, CHR 0x80] else CStr ''text'')\<rparr>"

definition blank_title_env :: env where
  "blank_title_env = (example_env 0)\<lparr>load_workbook := Inr (Some blank_title_sheet)\<rparr>"

definition example_init :: system where
  "example_init = init_system ''/tmp/x/f.xlsx'' ''f.xlsx'' ''t1'' Map.empty"

definition example_run :: "nat \<Rightarrow> event list \<Rightarrow> system" where
  "example_run n es = run (example_env n) ''t1'' ''/tmp/x/f.xlsx'' es example_init"

subsection \<open>Measures of a run\<close>

text \<open>The number of steps the worker takes at most, from its start to its return.\<close>

definition run_bound :: "env \<Rightarrow> nat" where
  "run_bound E = (case prepare E of Inl e \<Rightarrow> 5 | Inr n \<Rightarrow> 2 * n + 5)"

text \<open>An upper bound of the steps the worker still has to take.\<close>

definition steps_left :: "env \<Rightarrow> worker \<Rightarrow> nat" where
  "steps_left E w =
     (case pc w of
        Start \<Rightarrow> run_bound E
      | Load \<Rightarrow> run_bound E - 1
      | Rows \<Rightarrow> 2 * total_w w + 3
      | Check idx \<Rightarrow> 2 * (total_w w - idx) + 4
      | Canceling \<Rightarrow> 2
      | Unit idx \<Rightarrow> 2 * (total_w w - idx) + 3
      | Save \<Rightarrow> 2
      | Finally \<Rightarrow> 1
      | Exit \<Rightarrow> 0)"


subsection \<open>A sheet without rows to translate\<close>

text \<open>The entry of a task that ended at line 83.\<close>

definition zero_done :: "task_id \<Rightarrow> registry \<Rightarrow> bool" where
  "zero_done task_id R =
     (fld task_id ''status'' R = Some (VStr ''done'')
      \<and> fld task_id ''total'' R = Some (VInt 0)
      \<and> fld task_id ''percent'' R = Some (VInt 100)
      \<and> fld task_id ''finished_at'' R = None
      \<and> fld task_id ''download_filename'' R = None)"

text \<open>Where the worker can stand when \<^verbatim>\<open>total\<close> is 0, and what holds there.\<close>

fun zero_at :: "pc \<Rightarrow> task_id \<Rightarrow> system \<Rightarrow> bool" where
  "zero_at Start task_id s = True"
| "zero_at Load task_id s = True"
| "zero_at Rows task_id s =
     (total_w (worker s) = 0 \<and> fld task_id ''total'' (TASKS s) = Some (VInt 0))"
| "zero_at Finally task_id s = zero_done task_id (TASKS s)"
| "zero_at Exit task_id s = (present task_id (TASKS s) \<longrightarrow> zero_done task_id (TASKS s))"
| "zero_at p task_id s = False"

definition zero_ok :: "task_id \<Rightarrow> system \<Rightarrow> bool" where
  "zero_ok task_id s = zero_at (pc (worker s)) task_id s"

subsection \<open>Exceptions in the worker\<close>

text \<open>
  The exception the worker's next step raises inside the \<^verbatim>\<open>try\<close> block, if it raises
  one: in lines 56 to 79, in a unit of work, or in \<^verbatim>\<open>wb.save\<close>.
\<close>

definition raised :: "env \<Rightarrow> worker \<Rightarrow> exn option" where
  "raised E w =
     (case pc w of
        Load \<Rightarrow> (case prepare E of Inl e \<Rightarrow> Some e | Inr n \<Rightarrow> None)
      | Unit idx \<Rightarrow>
          (case unit_exn E idx of
             Some e \<Rightarrow> Some e
           | None \<Rightarrow>
               (case eta_seconds (total_w w) idx (start_w w) (time_unit E idx) of
                  Inl e \<Rightarrow> Some e
                | Inr eta \<Rightarrow>
                    (case percent_of (total_w w) idx of Inl e \<Rightarrow> Some e | Inr p \<Rightarrow> None)))
      | Save \<Rightarrow> save_exn E
      | _ \<Rightarrow> None)"

text \<open>A world in which the second unit of work fails.\<close>

definition failing_env :: env where
  "failing_env =
     (example_env 2)\<lparr>unit_exn := (\<lambda>idx. if idx = 2 then Some (OtherError ''disk full'') else None)\<rparr>"

definition failing_run :: "event list \<Rightarrow> system" where
  "failing_run es = run failing_env ''t1'' ''/tmp/x/f.xlsx'' es example_init"

subsection \<open>Cancellation\<close>

text \<open>
  With \<^verbatim>\<open>cancel_requested\<close> set: the number of steps after which the worker has stored
  \<^verbatim>\<open>canceled\<close>, from the positions from which it is bound to reach the check of line 88:
  before the loop with rows to translate, at a check, in a unit of work that is not the
  last one and does not fail, and after a check that saw the request.
\<close>

definition steps_to_canceled :: "env \<Rightarrow> worker \<Rightarrow> nat option" where
  "steps_to_canceled E w =
     (case pc w of
        Rows \<Rightarrow> if total_w w \<noteq> 0 then Some 3 else None
      | Check idx \<Rightarrow> Some 2
      | Canceling \<Rightarrow> Some 1
      | Unit idx \<Rightarrow> if idx < total_w w \<and> unit_exn E idx = None then Some 3 else None
      | _ \<Rightarrow> None)"

text \<open>The request is in the entry and will be seen after \<open>n\<close> more steps of the worker.\<close>

definition cancel_pending :: "env \<Rightarrow> task_id \<Rightarrow> nat \<Rightarrow> system \<Rightarrow> bool" where
  "cancel_pending E task_id n s =
     (inv task_id s
      \<and> truthy_opt (fld task_id ''cancel_requested'' (TASKS s))
      \<and> steps_to_canceled E (worker s) = Some n)"

text \<open>
  The value of \<^verbatim>\<open>current\<close> at the moment the worker stores \<^verbatim>\<open>canceled\<close>, seen from a state
  in which the request is pending: a unit of work in progress still adds one.
\<close>

definition current_at_cancel :: "task_id \<Rightarrow> system \<Rightarrow> pyval option" where
  "current_at_cancel task_id s =
     (case pc (worker s) of
        Unit idx \<Rightarrow> Some (VInt (int idx))
      | _ \<Rightarrow> fld task_id ''current'' (TASKS s))"

text \<open>The worker has stored \<^verbatim>\<open>canceled\<close>.\<close>

definition canceled_with :: "task_id \<Rightarrow> pyval option \<Rightarrow> system \<Rightarrow> bool" where
  "canceled_with task_id c s =
     (pc (worker s) = Finally \<and> present task_id (TASKS s) \<and> cleanup_threads s = 0
      \<and> fld task_id ''status'' (TASKS s) = Some (VStr ''canceled'')
      \<and> fld task_id ''download_filename'' (TASKS s) = None
      \<and> fld task_id ''current'' (TASKS s) = c)"

definition cancel_in :: "env \<Rightarrow> task_id \<Rightarrow> nat \<Rightarrow> pyval option \<Rightarrow> system \<Rightarrow> bool" where
  "cancel_in E task_id n c s =
     (if n = 0 then canceled_with task_id c s
      else cancel_pending E task_id n s \<and> current_at_cancel task_id s = c)"

section \<open>Properties\<close>

subsection \<open>Dictionaries and the registry\<close>

lemma dict_update_Nil: "dict_update d [] = d"
  by (simp add: dict_update_def)

lemma dict_update_Cons: "dict_update d ((k, v) # kv) = dict_update (AList.update k v d) kv"
  by (simp add: dict_update_def)

lemma dict_update_nonempty: "d \<noteq> [] \<Longrightarrow> dict_update d kv \<noteq> []"
proof (induction kv arbitrary: d)
  case Nil
  then show ?case by (simp add: dict_update_Nil)
next
  case (Cons p kv)
  obtain k v where p: "p = (k, v)" by (cases p)
  have "AList.update k v d \<noteq> []" by simp
  then show ?case unfolding p dict_update_Cons by (rule Cons.IH)
qed

text \<open>A lookup after an update: the last entry of \<open>kv\<close> for the key, else the old value.\<close>

lemma map_of_dict_update:
  "map_of (dict_update d kv) k = (map_of d ++ map_of (rev kv)) k"
proof (induction kv arbitrary: d)
  case Nil
  show ?case by (simp add: dict_update_Nil)
next
  case (Cons p kv)
  obtain k' v' where p: "p = (k', v')" by (cases p)
  have "map_of (dict_update d (p # kv)) k
        = (map_of (AList.update k' v' d) ++ map_of (rev kv)) k"
    unfolding p dict_update_Cons by (rule Cons.IH)
  also have "\<dots> = (map_of d ++ map_of (rev (p # kv))) k"
    by (simp add: p AList.update_conv' map_add_def split: option.splits)
  finally show ?case .
qed

lemma dict_update_cancel_idem:
  "dict_update (dict_update st cancel_kv) cancel_kv = dict_update st cancel_kv"
proof -
  let ?a = "AList.update ''message'' (VStr msg_canceling)
              (AList.update ''cancel_requested'' (VBool True) st)"
  have 1: "map_of ?a ''cancel_requested'' = Some (VBool True)"
    by (simp add: AList.update_conv')
  have 2: "map_of ?a ''message'' = Some (VStr msg_canceling)"
    by (simp add: AList.update_conv')
  show ?thesis
    by (simp add: dict_update_def cancel_kv_def AList.update_triv[OF 1] AList.update_triv[OF 2])
qed

lemma is_terminal_Nil: "\<not> is_terminal []"
  by (simp add: is_terminal_def dict_get_def)

lemma is_terminal_cancel: "is_terminal (dict_update st cancel_kv) = is_terminal st"
  by (simp add: is_terminal_def dict_get_def map_of_dict_update cancel_kv_def map_add_def)

lemma dict_update_cancel_nonempty: "dict_update st cancel_kv \<noteq> []"
  by (simp add: dict_update_def cancel_kv_def)

lemma safe_update_absent: "R task_id = None \<Longrightarrow> safe_update task_id kv R = R"
  by (simp add: safe_update_def)

lemma safe_update_None_iff: "safe_update task_id kv R k = None \<longleftrightarrow> R k = None"
  by (auto simp: safe_update_def split: option.splits)

lemma get_state_absent: "R task_id = None \<Longrightarrow> get_state task_id R = []"
  by (simp add: get_state_def)

lemma task_cancel_absent:
  "R task_id = None \<Longrightarrow> task_cancel task_id R = (not_found_response, R)"
  by (simp add: task_cancel_def get_state_def)

lemma task_cancel_None_iff: "snd (task_cancel task_id R) k = None \<longleftrightarrow> R k = None"
  by (simp add: task_cancel_def Let_def safe_update_None_iff)

lemma apply_op_None_iff: "snd (apply_op op R) k = None \<longleftrightarrow> R k = None"
proof (cases op)
  case (Update t kv)
  then show ?thesis by (simp add: safe_update_None_iff)
next
  case (Snapshot t)
  then show ?thesis by simp
next
  case (Cancel t)
  obtain r R1 where "task_cancel t R = (r, R1)" by (cases "task_cancel t R")
  then show ?thesis
    using task_cancel_None_iff [of t R k] Cancel by simp
qed

lemma apply_ops_None_iff: "snd (apply_ops ops R) k = None \<longleftrightarrow> R k = None"
proof (induction ops arbitrary: R)
  case Nil
  show ?case by simp
next
  case (Cons op ops)
  obtain r R1 where 1: "apply_op op R = (r, R1)" by (cases "apply_op op R")
  obtain rs R2 where 2: "apply_ops ops R1 = (rs, R2)" by (cases "apply_ops ops R1")
  have "R2 k = None \<longleftrightarrow> R1 k = None" using Cons.IH [of R1] 2 by simp
  moreover have "R1 k = None \<longleftrightarrow> R k = None" using apply_op_None_iff [of op R k] 1 by simp
  ultimately show ?case using 1 2 by simp
qed

lemma apply_op_absent:
  "R (op_target op) = None \<Longrightarrow> apply_op op R = (absent_result op, R)"
  by (cases op) (simp_all add: safe_update_absent get_state_absent task_cancel_absent)

lemma apply_ops_absent:
  "R task_id = None \<Longrightarrow> \<forall>op \<in> set ops. op_target op = task_id \<Longrightarrow>
   apply_ops ops R = (map absent_result ops, R)"
  by (induction ops) (simp_all add: apply_op_absent)

text \<open>
  Claim C6. For a task identifier with no entry in the registry: \<^verbatim>\<open>_safe_update\<close> leaves
  the registry as it is and raises nothing, \<^verbatim>\<open>_get_state\<close> returns the empty dictionary
  (which \<^verbatim>\<open>task_status\<close> answers with 404), \<^verbatim>\<open>task_cancel\<close> answers 404 and leaves the
  registry as it is, and after any sequence of updates, snapshots and cancel requests
  the identifier still has no entry; when all of them are on that identifier the
  registry is unchanged and each gets the answer for an absent task.
\<close>

theorem absent_task_stays_absent:
  assumes "R task_id = None"
  shows "safe_update task_id kv R = R
       \<and> get_state task_id R = []
       \<and> task_status task_id R = not_found_response
       \<and> task_cancel task_id R = (not_found_response, R)
       \<and> snd (apply_ops ops R) task_id = None
       \<and> ((\<forall>op \<in> set ops. op_target op = task_id) \<longrightarrow>
            apply_ops ops R = (map absent_result ops, R))"
  using assms
  by (simp add: safe_update_absent get_state_absent task_cancel_absent apply_ops_None_iff
      apply_ops_absent task_status_def)

theorem absent_task_stays_absent_witness:
  "safe_update ''abc'' [(''status'', VStr ''done'')] Map.empty = Map.empty
   \<and> get_state ''abc'' Map.empty = []
   \<and> task_status ''abc'' Map.empty = not_found_response
   \<and> task_cancel ''abc'' Map.empty = (not_found_response, Map.empty)
   \<and> snd (apply_ops [Cancel ''abc'', Update ''abc'' [(''status'', VStr ''running'')],
             Snapshot ''abc''] Map.empty) ''abc'' = None
   \<and> apply_ops [Cancel ''abc'', Update ''abc'' [(''status'', VStr ''running'')], Snapshot ''abc'']
        Map.empty
      = ([Http not_found_response, Updated, State []], Map.empty)"
  using absent_task_stays_absent [of Map.empty "''abc''" "[(''status'', VStr ''done'')]"
      "[Cancel ''abc'', Update ''abc'' [(''status'', VStr ''running'')], Snapshot ''abc'']"]
  by (simp add: safe_update_def get_state_def task_cancel_def)

text \<open>
  \<^verbatim>\<open>task_cancel\<close> when no other thread runs between its snapshot and its update: made
  again right after itself it gives the same answer and the same registry as the first
  call alone; on a task whose status is \<^verbatim>\<open>done\<close>, \<^verbatim>\<open>error\<close> or \<^verbatim>\<open>canceled\<close> it answers 200
  and changes nothing; on an identifier with no entry it answers 404.
\<close>

lemma task_cancel_uninterrupted:
  "task_cancel task_id (snd (task_cancel task_id R)) = task_cancel task_id R
   \<and> (R task_id = None \<longrightarrow> task_cancel task_id R = (not_found_response, R))
   \<and> (\<forall>st. R task_id = Some st \<and> is_terminal st \<longrightarrow>
        task_cancel task_id R =
          (Response [(''success'', VBool True), (''message'', VStr msg_already_over)] 200, R))"
  by (auto simp: task_cancel_def get_state_def safe_update_def Let_def is_terminal_cancel
      dict_update_cancel_nonempty dict_update_cancel_idem is_terminal_Nil split: option.splits)

subsection \<open>The invariant of the threads\<close>

lemma get_state_safe_update:
  "get_state task_id (safe_update task_id kv R) =
     (if get_state task_id R = [] then [] else dict_update (get_state task_id R) kv)"
  by (simp add: get_state_def safe_update_def split: option.splits)

lemma get_state_cleanup: "get_state task_id (cleanup task_id R) = []"
  by (simp add: get_state_def cleanup_def)

lemma dict_get_update:
  "dict_get (dict_update g kv) k =
     (case map_of (rev kv) k of None \<Rightarrow> dict_get g k | Some v \<Rightarrow> Some v)"
  by (simp add: dict_get_def map_of_dict_update map_add_def split: option.splits)

lemma dict_get_Nil: "dict_get [] k = None"
  by (simp add: dict_get_def)

text \<open>A field after an update of the registry.\<close>

lemma fld_safe_update:
  "fld task_id k (safe_update task_id kv R) =
     (if present task_id R
      then (case map_of (rev kv) k of None \<Rightarrow> fld task_id k R | Some v \<Rightarrow> Some v)
      else None)"
  by (simp add: fld_def present_def get_state_safe_update dict_get_update dict_get_Nil
      split: option.splits)

lemma present_safe_update: "present task_id (safe_update task_id kv R) = present task_id R"
  by (simp add: present_def get_state_safe_update dict_update_nonempty)

lemma fld_absent: "\<not> present task_id R \<Longrightarrow> fld task_id k R = None"
  by (simp add: fld_def present_def dict_get_Nil)

lemma fld_cleanup: "fld task_id k (cleanup task_id R) = None"
  by (simp add: fld_def get_state_cleanup dict_get_Nil)

lemma present_cleanup: "\<not> present task_id (cleanup task_id R)"
  by (simp add: present_def get_state_cleanup)

lemma is_terminal_fld:
  "is_terminal (get_state task_id R) \<longleftrightarrow>
     fld task_id ''status'' R
       \<in> {Some (VStr ''done''), Some (VStr ''error''), Some (VStr ''canceled'')}"
  by (simp add: is_terminal_def fld_def)

lemma eta_nonneg:
  assumes "1 \<le> idx" "idx \<le> total_n"
  shows "\<exists>n\<ge>0. eta_seconds total_n idx start now = Inr n"
proof -
  define el where "el = max (now - start) (1 / 1000000)"
  have el: "0 < el" by (simp add: el_def)
  have idx: "0 < real idx" using assms by simp
  have rate: "0 < real idx / el" using el idx by simp
  have "0 \<le> real_of_int (int total_n - int idx) / (real idx / el)"
    using assms rate by (intro divide_nonneg_pos) simp_all
  then have nn: "0 \<le> py_int (real_of_int (int total_n - int idx) / (real idx / el))"
    by (simp add: py_int_def)
  have 1: "py_truediv (real idx) el = Inr (real idx / el)"
    using el by (simp add: py_truediv_def)
  have 2: "py_truediv (real_of_int (int total_n - int idx)) (real idx / el)
           = Inr (real_of_int (int total_n - int idx) / (real idx / el))"
    using el idx assms by (simp add: py_truediv_def)
  have ne: "idx \<noteq> 0" using assms by simp
  have "eta_seconds total_n idx start now
        = Inr (py_int (real_of_int (int total_n - int idx) / (real idx / el)))"
    unfolding eta_seconds_def Let_def el_def[symmetric]
    by (simp only: ne if_True 1 2 sum.case not_False_eq_True)
  with nn show ?thesis by blast
qed

lemma inv_init: "inv task_id (init_system file_path filename task_id R)"
  by (simp add: inv_def init_system_def start_background_task_def get_state_def initial_state_def
      fld_def dict_get_def present_def eta_ok_def current_ok_def)

text \<open>
  The invariant reads the worker, the sleeping cleanup threads, whether the entry exists
  and five of its fields; a step that keeps these keeps the invariant.
\<close>

lemma inv_frame:
  assumes "inv task_id s" "worker s' = worker s" "cleanup_threads s' = cleanup_threads s"
    "present task_id (TASKS s') = present task_id (TASKS s)"
    "fld task_id ''status'' (TASKS s') = fld task_id ''status'' (TASKS s)"
    "fld task_id ''download_filename'' (TASKS s') = fld task_id ''download_filename'' (TASKS s)"
    "fld task_id ''finished_at'' (TASKS s') = fld task_id ''finished_at'' (TASKS s)"
    "fld task_id ''current'' (TASKS s') = fld task_id ''current'' (TASKS s)"
    "fld task_id ''eta_seconds'' (TASKS s') = fld task_id ''eta_seconds'' (TASKS s)"
  shows "inv task_id s'"
  using assms
  by (cases "pc (worker s)")
     (simp_all add: inv_def running_ok_def loop_ok_def eta_ok_def current_ok_def final_ok_def
       is_terminal_fld)

lemma fld_cancel_update:
  "k \<noteq> ''cancel_requested'' \<Longrightarrow> k \<noteq> ''message'' \<Longrightarrow>
   fld task_id k (safe_update task_id cancel_kv R) = fld task_id k R"
  by (simp add: fld_safe_update cancel_kv_def fld_absent)

lemma inv_cancel_check: "inv task_id s \<Longrightarrow> inv task_id (step E task_id fp CancelCheck s)"
  by (erule inv_frame) (simp_all add: step_def Let_def)

lemma inv_cancel_update: "inv task_id s \<Longrightarrow> inv task_id (step E task_id fp CancelUpdate s)"
  by (erule inv_frame) (simp_all add: step_def fld_cancel_update present_safe_update)

lemma inv_cleanup_pop: "inv task_id s \<Longrightarrow> inv task_id (step E task_id fp CleanupPop s)"
  by (cases "pc (worker s)")
     (simp_all add: step_def inv_def running_ok_def loop_ok_def eta_ok_def current_ok_def
       final_ok_def present_cleanup fld_cleanup)

lemmas upd_simps = fld_safe_update present_safe_update is_terminal_fld

lemma inv_step_Start:
  "inv task_id s \<Longrightarrow> pc (worker s) = Start \<Longrightarrow> inv task_id (step E task_id fp WorkerStep s)"
  by (simp add: inv_def step_def worker_step_def running_ok_def eta_ok_def current_ok_def upd_simps
      running_kv_def)

lemmas worker_simps = inv_def step_def worker_step_def running_ok_def loop_ok_def eta_ok_def
  current_ok_def final_ok_def upd_simps on_exception_def error_kv_def

lemma inv_step_Load:
  "inv task_id s \<Longrightarrow> pc (worker s) = Load \<Longrightarrow> inv task_id (step E task_id fp WorkerStep s)"
  by (cases "prepare E") (simp_all add: worker_simps total_kv_def)

lemma inv_step_Rows:
  "inv task_id s \<Longrightarrow> pc (worker s) = Rows \<Longrightarrow> inv task_id (step E task_id fp WorkerStep s)"
  by (simp add: worker_simps nothing_kv_def)

lemma inv_step_Check:
  "inv task_id s \<Longrightarrow> pc (worker s) = Check idx \<Longrightarrow>
   inv task_id (step E task_id fp WorkerStep s)"
  by (simp add: worker_simps)

lemma inv_step_Canceling:
  "inv task_id s \<Longrightarrow> pc (worker s) = Canceling \<Longrightarrow>
   inv task_id (step E task_id fp WorkerStep s)"
  by (simp add: worker_simps canceled_kv_def)

lemma inv_step_Save:
  "inv task_id s \<Longrightarrow> pc (worker s) = Save \<Longrightarrow> inv task_id (step E task_id fp WorkerStep s)"
  by (cases "save_exn E") (simp_all add: worker_simps done_kv_def)

lemma inv_step_Finally:
  "inv task_id s \<Longrightarrow> pc (worker s) = Finally \<Longrightarrow>
   inv task_id (step E task_id fp WorkerStep s)"
  by (simp add: worker_simps finalize_def Let_def)

lemma inv_step_Exit:
  "inv task_id s \<Longrightarrow> pc (worker s) = Exit \<Longrightarrow> inv task_id (step E task_id fp WorkerStep s)"
  by (simp add: worker_simps)

lemma inv_step_Unit:
  assumes "inv task_id s" "pc (worker s) = Unit idx"
  shows "inv task_id (step E task_id fp WorkerStep s)"
proof -
  have ok: "loop_ok task_id idx s" using assms by (simp add: inv_def)
  then have bounds: "1 \<le> idx" "idx \<le> total_w (worker s)" by (simp_all add: loop_ok_def)
  obtain n where n: "0 \<le> n"
    "eta_seconds (total_w (worker s)) idx (start_w (worker s)) (time_unit E idx) = Inr n"
    using eta_nonneg [OF bounds] by blast
  show ?thesis
  proof (cases "unit_exn E idx")
    case (Some e)
    then show ?thesis using assms by (simp add: worker_simps unit_of_work_def)
  next
    case None
    show ?thesis
    proof (cases "percent_of (total_w (worker s)) idx")
      case (Inl e)
      then show ?thesis using assms None n by (simp add: worker_simps unit_of_work_def)
    next
      case (Inr p)
      then show ?thesis using assms None n
        by (simp add: worker_simps unit_of_work_def progress_kv_def)
    qed
  qed
qed

lemma inv_worker_step: "inv task_id s \<Longrightarrow> inv task_id (step E task_id fp WorkerStep s)"
  by (cases "pc (worker s)")
     (simp_all add: inv_step_Start inv_step_Load inv_step_Rows inv_step_Check inv_step_Canceling
       inv_step_Unit inv_step_Save inv_step_Finally inv_step_Exit)

lemma inv_step: "inv task_id s \<Longrightarrow> inv task_id (step E task_id fp ev s)"
  by (cases ev) (simp_all add: inv_worker_step inv_cancel_check inv_cancel_update inv_cleanup_pop)

lemma run_Nil [simp]: "run E task_id fp [] s = s"
  by (simp add: run_def)

lemma run_Cons [simp]: "run E task_id fp (ev # es) s = run E task_id fp es (step E task_id fp ev s)"
  by (simp add: run_def)

lemma run_append: "run E task_id fp (es @ es') s = run E task_id fp es' (run E task_id fp es s)"
  by (simp add: run_def)

lemma inv_run: "inv task_id s \<Longrightarrow> inv task_id (run E task_id fp es s)"
  by (induction es arbitrary: s) (simp_all add: inv_step)

lemma inv_reachable:
  "inv task_id (run E task_id fp es (init_system fp filename task_id R))"
  by (rule inv_run [OF inv_init])

subsection \<open>The estimate of the remaining time\<close>

text \<open>
  Claim C10. In every state the threads can reach, a worker about to run iteration \<open>idx\<close>
  has \<open>1 \<le> idx \<le> total\<close>; there the computation of lines 96 and 97 raises no
  \<^verbatim>\<open>ZeroDivisionError\<close>, whatever the clock reads, and gives an integer that is not
  negative; and an \<^verbatim>\<open>eta_seconds\<close> stored in the task's entry is an integer that is not
  negative.
\<close>

theorem eta_seconds_total_nonneg:
  "(let s = run E task_id fp es (init_system fp filename task_id R)
    in (\<forall>idx. pc (worker s) = Unit idx \<longrightarrow>
          1 \<le> idx \<and> idx \<le> total_w (worker s)
          \<and> (\<exists>n\<ge>0. eta_seconds (total_w (worker s)) idx (start_w (worker s)) (time_unit E idx)
                      = Inr n))
       \<and> eta_ok task_id (TASKS s))
   \<and> (1 \<le> idx \<and> idx \<le> total_n \<longrightarrow> (\<exists>n\<ge>0. eta_seconds total_n idx start now = Inr n))"
proof -
  let ?s = "run E task_id fp es (init_system fp filename task_id R)"
  have inv: "inv task_id ?s" by (rule inv_reachable)
  have eta: "eta_ok task_id (TASKS ?s)"
    using inv by (cases "pc (worker ?s)") (simp_all add: inv_def running_ok_def loop_ok_def)
  have "1 \<le> idx \<and> idx \<le> total_w (worker ?s)
        \<and> (\<exists>n\<ge>0. eta_seconds (total_w (worker ?s)) idx (start_w (worker ?s)) (time_unit E idx)
                    = Inr n)"
    if "pc (worker ?s) = Unit idx" for idx
  proof -
    have "1 \<le> idx" "idx \<le> total_w (worker ?s)"
      using inv that by (simp_all add: inv_def loop_ok_def)
    then show ?thesis using eta_nonneg by blast
  qed
  then show ?thesis using eta eta_nonneg unfolding Let_def by blast
qed

theorem eta_seconds_total_nonneg_witness:
  "pc (worker (example_run 2 [WorkerStep, WorkerStep, WorkerStep, WorkerStep])) = Unit 1
   \<and> (\<exists>n\<ge>0. eta_seconds
          (total_w (worker (example_run 2 [WorkerStep, WorkerStep, WorkerStep, WorkerStep]))) 1
          (start_w (worker (example_run 2 [WorkerStep, WorkerStep, WorkerStep, WorkerStep])))
          (time_unit (example_env 2) 1) = Inr n)
   \<and> eta_seconds 2 1 101 102 = Inr 1
   \<and> eta_ok ''t1'' (TASKS (example_run 2 [WorkerStep, WorkerStep, WorkerStep, WorkerStep, WorkerStep]))
   \<and> (\<exists>n\<ge>0. eta_seconds 5 2 100 (207 / 2) = Inr n)"
proof -
  have at_unit: "pc (worker (example_run 2 [WorkerStep, WorkerStep, WorkerStep, WorkerStep])) = Unit 1"
    by code_simp
  have in_loop: "\<exists>n\<ge>0. eta_seconds
          (total_w (worker (example_run 2 [WorkerStep, WorkerStep, WorkerStep, WorkerStep]))) 1
          (start_w (worker (example_run 2 [WorkerStep, WorkerStep, WorkerStep, WorkerStep])))
          (time_unit (example_env 2) 1) = Inr n"
    using at_unit eta_seconds_total_nonneg [of "example_env 2" "''t1''" "''/tmp/x/f.xlsx''"
        "[WorkerStep, WorkerStep, WorkerStep, WorkerStep]" "''f.xlsx''" Map.empty]
    unfolding Let_def example_run_def example_init_def by blast
  have computed: "eta_seconds 2 1 101 102 = Inr 1" by code_simp
  have stored: "eta_ok ''t1''
             (TASKS (example_run 2 [WorkerStep, WorkerStep, WorkerStep, WorkerStep, WorkerStep]))"
    using eta_seconds_total_nonneg [of "example_env 2" "''t1''" "''/tmp/x/f.xlsx''"
        "[WorkerStep, WorkerStep, WorkerStep, WorkerStep, WorkerStep]" "''f.xlsx''" Map.empty]
    by (simp add: Let_def example_run_def example_init_def)
  have any_clock: "\<exists>n\<ge>0. eta_seconds 5 2 100 (207 / 2) = Inr n"
    using eta_seconds_total_nonneg [of "example_env 2" "''t1''" "''/tmp/x/f.xlsx''" "[]"
        "''f.xlsx''" Map.empty 2 5 100 "207 / 2"]
    by simp
  from at_unit in_loop computed stored any_clock show ?thesis by blast
qed

subsection \<open>The worker returns, and finalizes once\<close>

lemma step_worker_other:
  "ev \<noteq> WorkerStep \<Longrightarrow> worker (step E task_id fp ev s) = worker s"
  by (cases ev) (simp_all add: step_def Let_def)

lemma steps_left_decreases:
  assumes "pc (worker s) \<noteq> Exit"
  shows "steps_left E (worker (step E task_id fp WorkerStep s)) < steps_left E (worker s)"
proof (cases "pc (worker s)")
  case Load
  then show ?thesis
    by (cases "prepare E")
       (simp_all add: step_def worker_step_def steps_left_def run_bound_def on_exception_def)
next
  case (Unit idx)
  have "idx < total_w (worker s) \<Longrightarrow>
        2 * (total_w (worker s) - Suc idx) + 4 < 2 * (total_w (worker s) - idx) + 3"
    by arith
  with Unit show ?thesis
    by (simp add: step_def worker_step_def steps_left_def unit_of_work_def on_exception_def
        split: option.splits sum.splits)
next
  case Rows
  have "0 < total_w (worker s) \<Longrightarrow>
        2 * (total_w (worker s) - 1) + 4 < 2 * total_w (worker s) + 3"
    by arith
  with Rows show ?thesis
    by (simp add: step_def worker_step_def steps_left_def)
next
  case Save
  then show ?thesis
    by (simp add: step_def worker_step_def steps_left_def on_exception_def split: option.splits)
next
  case Exit
  then show ?thesis using assms by simp
qed (simp_all add: step_def worker_step_def steps_left_def run_bound_def finalize_def Let_def
      split: sum.splits)

lemma steps_left_Exit: "steps_left E w = 0 \<longleftrightarrow> pc w = Exit"
  by (cases "pc w") (simp_all add: steps_left_def run_bound_def split: sum.splits)

lemma steps_left_step:
  "steps_left E (worker (step E task_id fp ev s))
     \<le> steps_left E (worker s) - (if ev = WorkerStep then 1 else 0)"
proof (cases "ev = WorkerStep")
  case True
  show ?thesis
  proof (cases "pc (worker s) = Exit")
    case True
    then have "worker (step E task_id fp WorkerStep s) = worker s"
      by (simp add: step_def worker_step_def)
    moreover have "steps_left E (worker s) = 0" using True by (simp add: steps_left_Exit)
    ultimately show ?thesis using \<open>ev = WorkerStep\<close> by simp
  next
    case False
    then show ?thesis using steps_left_decreases [OF False, of E task_id fp] \<open>ev = WorkerStep\<close>
      by simp
  qed
next
  case False
  then show ?thesis by (simp add: step_worker_other)
qed

lemma steps_left_run:
  "steps_left E (worker (run E task_id fp es s))
     \<le> steps_left E (worker s) - count_list es WorkerStep"
proof (induction es arbitrary: s)
  case Nil
  show ?case by simp
next
  case (Cons ev es)
  have "steps_left E (worker (run E task_id fp (ev # es) s))
        \<le> steps_left E (worker (step E task_id fp ev s)) - count_list es WorkerStep"
    using Cons.IH [of "step E task_id fp ev s"] by simp
  also have "\<dots> \<le> (steps_left E (worker s) - (if ev = WorkerStep then 1 else 0))
                    - count_list es WorkerStep"
    using steps_left_step [of E task_id fp ev s] by (rule diff_le_mono)
  also have "\<dots> = steps_left E (worker s) - count_list (ev # es) WorkerStep"
    by simp
  finally show ?case .
qed









subsection \<open>The entry stays until a cleanup thread pops it\<close>

lemma present_worker_step:
  "present task_id (snd (worker_step E task_id fp w R)) = present task_id R"
  by (cases "pc w")
     (simp_all add: worker_step_def unit_of_work_def on_exception_def present_safe_update
       split: sum.splits option.splits)

lemma present_step:
  "ev \<noteq> CleanupPop \<Longrightarrow> present task_id (TASKS (step E task_id fp ev s)) = present task_id (TASKS s)"
proof (cases ev)
  case WorkerStep
  obtain w R' where wR: "worker_step E task_id fp (worker s) (TASKS s) = (w, R')"
    by (cases "worker_step E task_id fp (worker s) (TASKS s)")
  then have "present task_id R' = present task_id (TASKS s)"
    using present_worker_step [of task_id E fp "worker s" "TASKS s"] by simp
  then show ?thesis using WorkerStep wR by (simp add: step_def finalize_def Let_def)
qed (simp_all add: step_def Let_def present_safe_update)

lemma present_run:
  "CleanupPop \<notin> set es \<Longrightarrow>
   present task_id (TASKS (run E task_id fp es s)) = present task_id (TASKS s)"
proof (induction es arbitrary: s)
  case Nil
  show ?case by simp
next
  case (Cons ev es)
  have ev: "ev \<noteq> CleanupPop" and es: "CleanupPop \<notin> set es" using Cons.prems by auto
  show ?case using Cons.IH [OF es] present_step [OF ev] by simp
qed

lemma present_init: "present task_id (TASKS (init_system fp filename task_id R))"
  by (simp add: present_def init_system_def start_background_task_def get_state_def
      initial_state_def)

text \<open>After the worker's last update the status stays, until the entry is popped.\<close>

lemma final_step:
  assumes "pc (worker s) = Finally \<or> pc (worker s) = Exit" "ev \<noteq> CleanupPop"
    "k \<noteq> ''cancel_requested''" "k \<noteq> ''message''"
  shows "(pc (worker (step E task_id fp ev s)) = Finally
          \<or> pc (worker (step E task_id fp ev s)) = Exit)
       \<and> fld task_id k (TASKS (step E task_id fp ev s)) = fld task_id k (TASKS s)"
  using assms
  by (cases ev)
     (auto simp: step_def Let_def finalize_def worker_step_def fld_cancel_update)

lemma final_run:
  assumes "pc (worker s) = Finally \<or> pc (worker s) = Exit" "CleanupPop \<notin> set es"
    "k \<noteq> ''cancel_requested''" "k \<noteq> ''message''"
  shows "fld task_id k (TASKS (run E task_id fp es s)) = fld task_id k (TASKS s)"
  using assms(1,2)
proof (induction es arbitrary: s)
  case Nil
  show ?case by simp
next
  case (Cons ev es)
  have ev: "ev \<noteq> CleanupPop" and es: "CleanupPop \<notin> set es" using Cons.prems(2) by auto
  note st = final_step [OF Cons.prems(1) ev assms(3,4), of E task_id fp]
  show ?case using Cons.IH [OF conjunct1 [OF st] es] conjunct2 [OF st] by simp
qed

subsection \<open>A sheet without rows to translate\<close>

lemma zero_step:
  assumes "prepare E = Inr 0" "inv task_id s" "zero_ok task_id s"
  shows "zero_ok task_id (step E task_id fp ev s)"
proof (cases ev)
  case WorkerStep
  show ?thesis
    using assms WorkerStep
    by (cases "pc (worker s)")
       (simp_all add: zero_ok_def zero_done_def inv_def running_ok_def step_def worker_step_def
         finalize_def Let_def fld_safe_update total_kv_def nothing_kv_def)
next
  case CancelCheck
  then show ?thesis
    using assms
    by (cases "pc (worker s)") (simp_all add: zero_ok_def zero_done_def step_def Let_def)
next
  case CancelUpdate
  then show ?thesis
    using assms
    by (cases "pc (worker s)")
       (simp_all add: zero_ok_def zero_done_def step_def fld_cancel_update present_safe_update)
next
  case CleanupPop
  then show ?thesis
    using assms
    by (cases "pc (worker s)")
       (simp_all add: zero_ok_def zero_done_def inv_def running_ok_def step_def present_cleanup)
qed

lemma zero_run:
  "prepare E = Inr 0 \<Longrightarrow> inv task_id s \<Longrightarrow> zero_ok task_id s \<Longrightarrow>
   zero_ok task_id (run E task_id fp es s)"
  by (induction es arbitrary: s) (simp_all add: zero_step inv_step)

lemma zero_reachable:
  "prepare E = Inr 0 \<Longrightarrow> zero_ok task_id (run E task_id fp es (init_system fp filename task_id R))"
  by (rule zero_run [OF _ inv_init]) (simp_all add: zero_ok_def init_system_def)

lemma zero_never_error:
  assumes "inv task_id s" "zero_ok task_id s"
  shows "fld task_id ''status'' (TASKS s) \<noteq> Some (VStr ''error'')"
proof (cases "present task_id (TASKS s)")
  case False
  then show ?thesis by (simp add: fld_absent)
next
  case True
  then show ?thesis
    using assms
    by (cases "pc (worker s)")
       (simp_all add: zero_ok_def zero_done_def inv_def running_ok_def)
qed

lemma zero_after_three:
  assumes "prepare E = Inr 0" "3 \<le> count_list es WorkerStep"
  shows "pc (worker (run E task_id fp es (init_system fp filename task_id R))) = Finally
       \<or> pc (worker (run E task_id fp es (init_system fp filename task_id R))) = Exit"
proof -
  let ?s = "run E task_id fp es (init_system fp filename task_id R)"
  have "steps_left E (worker (init_system fp filename task_id R)) = 5"
    using assms(1) by (simp add: steps_left_def init_system_def run_bound_def)
  then have le: "steps_left E (worker ?s) \<le> 2"
    using steps_left_run [of E task_id fp es "init_system fp filename task_id R"] assms(2) by simp
  have "zero_ok task_id ?s" using assms(1) by (rule zero_reachable)
  then show ?thesis using le assms(1)
    by (cases "pc (worker ?s)") (simp_all add: zero_ok_def steps_left_def run_bound_def)
qed

text \<open>White space outside ASCII is stripped as \<^verbatim>\<open>str.strip()\<close> strips it.\<close>

lemma strip_unicode_space:
  "strip ([CHR 0xE3, CHR 0x80, CHR 0x80] @ '' Title'' @ [CHR 0xC2, CHR 0xA0, CHR 0x20]) = ''Title''"
  "strip [CHR 0xC2, CHR 0xA0] = []"
  "strip (''a'' @ [CHR 0xE2, CHR 0x80, CHR 0x8B]) = ''a'' @ [CHR 0xE2, CHR 0x80, CHR 0x8B]"
  by code_simp+

text \<open>
  Claim C9. When the workbook loads, has a Title column and no row to translate, then in
  every state the threads can reach the status of the task is not \<^verbatim>\<open>error\<close>; and once
  the worker has taken three steps, the entry (until a cleanup thread pops it) has status
  \<^verbatim>\<open>done\<close>, \<^verbatim>\<open>total\<close> 0 and \<^verbatim>\<open>percent\<close> 100.
\<close>

theorem zero_rows_done:
  assumes "load_workbook E = Inr (Some ws)" "find_title 1 (first_row ws) = Some title_col_idx"
    "rows_to_translate ws title_col_idx = []"
  shows "(let s = run E task_id fp es (init_system fp filename task_id R)
          in fld task_id ''status'' (TASKS s) \<noteq> Some (VStr ''error'')
             \<and> (3 \<le> count_list es WorkerStep \<and> CleanupPop \<notin> set es \<longrightarrow>
                  fld task_id ''status'' (TASKS s) = Some (VStr ''done'')
                  \<and> fld task_id ''total'' (TASKS s) = Some (VInt 0)
                  \<and> fld task_id ''percent'' (TASKS s) = Some (VInt 100)))"
proof -
  let ?s = "run E task_id fp es (init_system fp filename task_id R)"
  have p: "prepare E = Inr 0" using assms by (simp add: prepare_def)
  have inv: "inv task_id ?s" by (rule inv_reachable)
  have z: "zero_ok task_id ?s" using p by (rule zero_reachable)
  have 1: "fld task_id ''status'' (TASKS ?s) \<noteq> Some (VStr ''error'')"
    using inv z by (rule zero_never_error)
  have 2: "zero_done task_id (TASKS ?s)"
    if "3 \<le> count_list es WorkerStep" "CleanupPop \<notin> set es"
  proof -
    have "present task_id (TASKS ?s)" using present_run [OF that(2)] present_init by simp
    moreover have "pc (worker ?s) = Finally \<or> pc (worker ?s) = Exit"
      using p that(1) by (rule zero_after_three)
    ultimately show ?thesis using z by (auto simp: zero_ok_def)
  qed
  show ?thesis unfolding Let_def using 1 2 by (auto simp: zero_done_def)
qed

theorem zero_rows_done_witness:
  "load_workbook (example_env 0) = Inr (Some (example_sheet 0))
   \<and> find_title 1 (first_row (example_sheet 0)) = Some 2
   \<and> rows_to_translate (example_sheet 0) 2 = []
   \<and> fld ''t1'' ''status'' (TASKS (example_run 0 [WorkerStep, CancelCheck, WorkerStep, WorkerStep]))
       = Some (VStr ''done'')
   \<and> fld ''t1'' ''total'' (TASKS (example_run 0 [WorkerStep, CancelCheck, WorkerStep, WorkerStep]))
       = Some (VInt 0)
   \<and> fld ''t1'' ''percent'' (TASKS (example_run 0 [WorkerStep, CancelCheck, WorkerStep, WorkerStep]))
       = Some (VInt 100)
   \<and> find_title 1 (first_row blank_title_sheet) = Some 1
   \<and> rows_to_translate blank_title_sheet 1 = []
   \<and> fld ''t1'' ''status''
        (TASKS (run blank_title_env ''t1'' ''/tmp/x/f.xlsx'' [WorkerStep, WorkerStep, WorkerStep]
           example_init)) = Some (VStr ''done'')
   \<and> fld ''t1'' ''total''
        (TASKS (run blank_title_env ''t1'' ''/tmp/x/f.xlsx'' [WorkerStep, WorkerStep, WorkerStep]
           example_init)) = Some (VInt 0)"
proof -
  have l0: "load_workbook (example_env 0) = Inr (Some (example_sheet 0))"
    by (simp add: example_env_def)
  have t0: "find_title 1 (first_row (example_sheet 0)) = Some 2" by code_simp
  have r0: "rows_to_translate (example_sheet 0) 2 = []" by code_simp
  have plain: "fld ''t1'' ''status''
          (TASKS (example_run 0 [WorkerStep, CancelCheck, WorkerStep, WorkerStep]))
        = Some (VStr ''done'')
      \<and> fld ''t1'' ''total''
          (TASKS (example_run 0 [WorkerStep, CancelCheck, WorkerStep, WorkerStep]))
        = Some (VInt 0)
      \<and> fld ''t1'' ''percent''
          (TASKS (example_run 0 [WorkerStep, CancelCheck, WorkerStep, WorkerStep]))
        = Some (VInt 100)"
    using zero_rows_done [OF l0 t0 r0, of "''t1''" "''/tmp/x/f.xlsx''"
        "[WorkerStep, CancelCheck, WorkerStep, WorkerStep]" "''f.xlsx''" Map.empty]
    unfolding Let_def example_run_def example_init_def by simp
  have l1: "load_workbook blank_title_env = Inr (Some blank_title_sheet)"
    by (simp add: blank_title_env_def)
  have t1: "find_title 1 (first_row blank_title_sheet) = Some 1" by code_simp
  have r1: "rows_to_translate blank_title_sheet 1 = []" by code_simp
  have blank: "fld ''t1'' ''status''
          (TASKS (run blank_title_env ''t1'' ''/tmp/x/f.xlsx''
             [WorkerStep, WorkerStep, WorkerStep] example_init)) = Some (VStr ''done'')
      \<and> fld ''t1'' ''total''
          (TASKS (run blank_title_env ''t1'' ''/tmp/x/f.xlsx''
             [WorkerStep, WorkerStep, WorkerStep] example_init)) = Some (VInt 0)"
    using zero_rows_done [OF l1 t1 r1, of "''t1''" "''/tmp/x/f.xlsx''"
        "[WorkerStep, WorkerStep, WorkerStep]" "''f.xlsx''" Map.empty]
    unfolding Let_def example_init_def by simp
  from l0 t0 r0 plain t1 r1 blank show ?thesis by blast
qed

subsection \<open>Exceptions in the worker\<close>

lemma raised_step:
  "raised E w = Some e \<Longrightarrow> worker_step E task_id fp w R = on_exception E task_id e w R"
  by (cases "pc w")
     (simp_all add: raised_def worker_step_def unit_of_work_def
       split: sum.splits option.splits)

lemma raised_running:
  assumes "raised E (worker s) = Some e" "inv task_id s"
  shows "present task_id (TASKS s)"
  using assms
  by (cases "pc (worker s)") (simp_all add: raised_def inv_def running_ok_def loop_ok_def)

lemma raised_not_Finally: "raised E w = Some e \<Longrightarrow> pc w \<noteq> Finally"
  by (cases "pc w") (simp_all add: raised_def)

lemma task_status_present:
  "present task_id R \<Longrightarrow> task_status task_id R = Response (get_state task_id R) 200"
  by (simp add: task_status_def present_def)

text \<open>
  Claim C5. In every state the threads can reach, when the worker's next step raises an
  exception \<open>e\<close> inside the \<^verbatim>\<open>try\<close> block, that step stores status \<^verbatim>\<open>error\<close>, the message
  \<^verbatim>\<open>str(e)\<close> and \<^verbatim>\<open>finished_at\<close>, and takes the worker to its \<^verbatim>\<open>finally\<close> block, from where
  its next step is its return; and as long as no cleanup thread pops the entry, the
  status stays \<^verbatim>\<open>error\<close> and \<^verbatim>\<open>task_status\<close> answers 200 with the entry.
\<close>

theorem worker_exception_contained:
  "(let s = run E task_id fp es (init_system fp filename task_id R)
    in raised E (worker s) = Some e \<longrightarrow>
       (let s' = step E task_id fp WorkerStep s
        in pc (worker s') = Finally
           \<and> fld task_id ''status'' (TASKS s') = Some (VStr ''error'')
           \<and> fld task_id ''message'' (TASKS s') = Some (VStr (exn_str e))
           \<and> fld task_id ''finished_at'' (TASKS s') = Some (VFloat (time_finished E))
           \<and> pc (worker (step E task_id fp WorkerStep s')) = Exit
           \<and> (\<forall>es'. CleanupPop \<notin> set es' \<longrightarrow>
                 fld task_id ''status'' (TASKS (run E task_id fp es' s')) = Some (VStr ''error'')
                 \<and> task_status task_id (TASKS (run E task_id fp es' s'))
                     = Response (get_state task_id (TASKS (run E task_id fp es' s'))) 200)))"
proof -
  let ?s = "run E task_id fp es (init_system fp filename task_id R)"
  let ?s' = "step E task_id fp WorkerStep ?s"
  have "pc (worker ?s') = Finally
        \<and> fld task_id ''status'' (TASKS ?s') = Some (VStr ''error'')
        \<and> fld task_id ''message'' (TASKS ?s') = Some (VStr (exn_str e))
        \<and> fld task_id ''finished_at'' (TASKS ?s') = Some (VFloat (time_finished E))
        \<and> pc (worker (step E task_id fp WorkerStep ?s')) = Exit
        \<and> (\<forall>es'. CleanupPop \<notin> set es' \<longrightarrow>
              fld task_id ''status'' (TASKS (run E task_id fp es' ?s')) = Some (VStr ''error'')
              \<and> task_status task_id (TASKS (run E task_id fp es' ?s'))
                  = Response (get_state task_id (TASKS (run E task_id fp es' ?s'))) 200)"
    if r: "raised E (worker ?s) = Some e"
  proof -
    have inv: "inv task_id ?s" by (rule inv_reachable)
    have pres: "present task_id (TASKS ?s)" using r inv by (rule raised_running)
    have nf: "pc (worker ?s) \<noteq> Finally" using r by (rule raised_not_Finally)
    have s': "?s' = ?s\<lparr>TASKS := safe_update task_id (error_kv E e) (TASKS ?s),
                          worker := (worker ?s)\<lparr>pc := Finally\<rparr>\<rparr>"
      using nf raised_step [OF r, of task_id fp "TASKS ?s"]
      by (simp add: step_def on_exception_def)
    have pc': "pc (worker ?s') = Finally" by (simp add: s')
    have st: "fld task_id ''status'' (TASKS ?s') = Some (VStr ''error'')"
      using pres by (simp add: s' fld_safe_update error_kv_def)
    have msg: "fld task_id ''message'' (TASKS ?s') = Some (VStr (exn_str e))"
      using pres by (simp add: s' fld_safe_update error_kv_def)
    have fin: "fld task_id ''finished_at'' (TASKS ?s') = Some (VFloat (time_finished E))"
      using pres by (simp add: s' fld_safe_update error_kv_def)
    have pres': "present task_id (TASKS ?s')"
      using pres by (simp add: s' present_safe_update)
    have ex: "pc (worker (step E task_id fp WorkerStep ?s')) = Exit"
      using pc' by (simp add: step_def finalize_def Let_def)
    have later: "fld task_id ''status'' (TASKS (run E task_id fp es' ?s')) = Some (VStr ''error'')
                 \<and> task_status task_id (TASKS (run E task_id fp es' ?s'))
                     = Response (get_state task_id (TASKS (run E task_id fp es' ?s'))) 200"
      if np: "CleanupPop \<notin> set es'" for es'
    proof -
      have "fld task_id ''status'' (TASKS (run E task_id fp es' ?s'))
            = fld task_id ''status'' (TASKS ?s')"
        using pc' np by (intro final_run) simp_all
      moreover have "present task_id (TASKS (run E task_id fp es' ?s'))"
        using present_run [OF np, of task_id E fp ?s'] pres' by simp
      ultimately show ?thesis using st by (simp add: task_status_present)
    qed
    show ?thesis using pc' st msg fin ex later by blast
  qed
  then show ?thesis unfolding Let_def by blast
qed

theorem worker_exception_contained_witness:
  "raised failing_env
     (worker (failing_run [WorkerStep, WorkerStep, WorkerStep, WorkerStep, WorkerStep, WorkerStep]))
     = Some (OtherError ''disk full'')
   \<and> pc (worker (failing_run [WorkerStep, WorkerStep, WorkerStep, WorkerStep, WorkerStep,
          WorkerStep, WorkerStep])) = Finally
   \<and> fld ''t1'' ''status'' (TASKS (failing_run [WorkerStep, WorkerStep, WorkerStep, WorkerStep,
          WorkerStep, WorkerStep, WorkerStep])) = Some (VStr ''error'')
   \<and> fld ''t1'' ''message'' (TASKS (failing_run [WorkerStep, WorkerStep, WorkerStep, WorkerStep,
          WorkerStep, WorkerStep, WorkerStep])) = Some (VStr ''disk full'')"
proof -
  let ?es = "[WorkerStep, WorkerStep, WorkerStep, WorkerStep, WorkerStep, WorkerStep]"
  have r: "raised failing_env (worker (failing_run ?es)) = Some (OtherError ''disk full'')"
    by code_simp
  have e: "failing_run (?es @ [WorkerStep])
           = step failing_env ''t1'' ''/tmp/x/f.xlsx'' WorkerStep (failing_run ?es)"
    by (simp add: failing_run_def run_append)
  show ?thesis
    using r worker_exception_contained [of failing_env "''t1''" "''/tmp/x/f.xlsx''" ?es
        "''f.xlsx''" Map.empty "OtherError ''disk full''"]
    unfolding Let_def e [simplified] failing_run_def example_init_def
    by simp
qed

subsection \<open>Terminal transitions and \<^verbatim>\<open>finished_at\<close>\<close>

text \<open>In every reachable state, a canceled task has no \<^verbatim>\<open>finished_at\<close>.\<close>

lemma canceled_never_finished_at:
  assumes "fld task_id ''status'' (TASKS (run E task_id fp es (init_system fp filename task_id R)))
           = Some (VStr ''canceled'')"
  shows "fld task_id ''finished_at'' (TASKS (run E task_id fp es (init_system fp filename task_id R)))
         = None"
proof -
  let ?s = "run E task_id fp es (init_system fp filename task_id R)"
  have inv: "inv task_id ?s" by (rule inv_reachable)
  have pres: "present task_id (TASKS ?s)"
    using assms fld_absent [of task_id "TASKS ?s" "''status''"] by auto
  show ?thesis
    using inv assms pres
    by (cases "pc (worker ?s)") (simp_all add: inv_def running_ok_def loop_ok_def final_ok_def)
qed

text \<open>
  Claim C2, at two inputs. A task canceled at its first checkpoint ends with status
  \<^verbatim>\<open>canceled\<close> and no \<^verbatim>\<open>finished_at\<close>; a task with no row to translate ends with status
  \<^verbatim>\<open>done\<close>, percent 100, no \<^verbatim>\<open>finished_at\<close> and no download name; a task that translates
  its one row ends with status \<^verbatim>\<open>done\<close> and does have both.
\<close>

theorem terminal_without_finished_at:
  "fld ''t1'' ''status'' (TASKS (example_run 2 [WorkerStep, WorkerStep, WorkerStep, CancelCheck,
        CancelUpdate, WorkerStep, WorkerStep])) = Some (VStr ''canceled'')
   \<and> fld ''t1'' ''finished_at'' (TASKS (example_run 2 [WorkerStep, WorkerStep, WorkerStep,
        CancelCheck, CancelUpdate, WorkerStep, WorkerStep])) = None
   \<and> pc (worker (example_run 2 [WorkerStep, WorkerStep, WorkerStep, CancelCheck, CancelUpdate,
        WorkerStep, WorkerStep])) = Finally
   \<and> fld ''t1'' ''status'' (TASKS (example_run 0 [WorkerStep, WorkerStep, WorkerStep]))
        = Some (VStr ''done'')
   \<and> fld ''t1'' ''percent'' (TASKS (example_run 0 [WorkerStep, WorkerStep, WorkerStep]))
        = Some (VInt 100)
   \<and> fld ''t1'' ''finished_at'' (TASKS (example_run 0 [WorkerStep, WorkerStep, WorkerStep])) = None
   \<and> fld ''t1'' ''download_filename'' (TASKS (example_run 0 [WorkerStep, WorkerStep, WorkerStep]))
        = None
   \<and> pc (worker (example_run 0 [WorkerStep, WorkerStep, WorkerStep])) = Finally
   \<and> fld ''t1'' ''status'' (TASKS (example_run 1 [WorkerStep, WorkerStep, WorkerStep, WorkerStep,
        WorkerStep, WorkerStep])) = Some (VStr ''done'')
   \<and> fld ''t1'' ''finished_at'' (TASKS (example_run 1 [WorkerStep, WorkerStep, WorkerStep,
        WorkerStep, WorkerStep, WorkerStep])) = Some (VFloat 110)
   \<and> fld ''t1'' ''download_filename'' (TASKS (example_run 1 [WorkerStep, WorkerStep, WorkerStep,
        WorkerStep, WorkerStep, WorkerStep])) = Some (VStr (''f'' @ output_suffix))"
proof -
  let ?c = "example_run 2 [WorkerStep, WorkerStep, WorkerStep, CancelCheck, CancelUpdate,
              WorkerStep, WorkerStep]"
  let ?z = "example_run 0 [WorkerStep, WorkerStep, WorkerStep]"
  let ?d = "example_run 1 [WorkerStep, WorkerStep, WorkerStep, WorkerStep, WorkerStep, WorkerStep]"
  have c1: "fld ''t1'' ''status'' (TASKS ?c) = Some (VStr ''canceled'')" by code_simp
  have c2: "fld ''t1'' ''finished_at'' (TASKS ?c) = None" by code_simp
  have c3: "pc (worker ?c) = Finally" by code_simp
  have z1: "fld ''t1'' ''status'' (TASKS ?z) = Some (VStr ''done'')" by code_simp
  have z2: "fld ''t1'' ''percent'' (TASKS ?z) = Some (VInt 100)" by code_simp
  have z3: "fld ''t1'' ''finished_at'' (TASKS ?z) = None" by code_simp
  have z4: "fld ''t1'' ''download_filename'' (TASKS ?z) = None" by code_simp
  have z5: "pc (worker ?z) = Finally" by code_simp
  have d1: "fld ''t1'' ''status'' (TASKS ?d) = Some (VStr ''done'')" by code_simp
  have d2: "fld ''t1'' ''finished_at'' (TASKS ?d) = Some (VFloat 110)" by code_simp
  have d3: "fld ''t1'' ''download_filename'' (TASKS ?d) = Some (VStr (''f'' @ output_suffix))"
    by code_simp
  from c1 c2 c3 z1 z2 z3 z4 z5 d1 d2 d3 show ?thesis by blast
qed

subsection \<open>A cancel request that overlaps the end of the task\<close>

text \<open>
  Claim C1, at one input. A task with one row: the cancel handler takes its snapshot
  while the worker is in that row's unit of work (status \<^verbatim>\<open>running\<close>), the worker then
  finishes and stores status \<^verbatim>\<open>done\<close>, and then the handler makes its update. The update
  changes \<^verbatim>\<open>cancel_requested\<close> and \<^verbatim>\<open>message\<close> of the finished task.
\<close>

theorem late_cancel_update_changes_done_task:
  "is_terminal (get_state ''t1'' (TASKS (example_run 1 [WorkerStep, WorkerStep, WorkerStep,
        WorkerStep, CancelCheck, WorkerStep, WorkerStep])))
   \<and> cancel_handlers (example_run 1 [WorkerStep, WorkerStep, WorkerStep, WorkerStep, CancelCheck,
        WorkerStep, WorkerStep]) = 1
   \<and> fld ''t1'' ''cancel_requested'' (TASKS (example_run 1 [WorkerStep, WorkerStep, WorkerStep,
        WorkerStep, CancelCheck, WorkerStep, WorkerStep])) = Some (VBool False)
   \<and> fld ''t1'' ''message'' (TASKS (example_run 1 [WorkerStep, WorkerStep, WorkerStep,
        WorkerStep, CancelCheck, WorkerStep, WorkerStep]))
        = Some (VStr (msg_finished @ ''1'' @ msg_rows))
   \<and> fld ''t1'' ''status'' (TASKS (example_run 1 [WorkerStep, WorkerStep, WorkerStep,
        WorkerStep, CancelCheck, WorkerStep, WorkerStep, CancelUpdate])) = Some (VStr ''done'')
   \<and> fld ''t1'' ''cancel_requested'' (TASKS (example_run 1 [WorkerStep, WorkerStep, WorkerStep,
        WorkerStep, CancelCheck, WorkerStep, WorkerStep, CancelUpdate])) = Some (VBool True)
   \<and> fld ''t1'' ''message'' (TASKS (example_run 1 [WorkerStep, WorkerStep, WorkerStep,
        WorkerStep, CancelCheck, WorkerStep, WorkerStep, CancelUpdate]))
        = Some (VStr msg_canceling)
   \<and> get_state ''t1'' (TASKS (example_run 1 [WorkerStep, WorkerStep, WorkerStep,
        WorkerStep, CancelCheck, WorkerStep, WorkerStep, CancelUpdate]))
      \<noteq> get_state ''t1'' (TASKS (example_run 1 [WorkerStep, WorkerStep, WorkerStep,
        WorkerStep, CancelCheck, WorkerStep, WorkerStep]))"
proof -
  let ?a = "example_run 1 [WorkerStep, WorkerStep, WorkerStep, WorkerStep, CancelCheck,
              WorkerStep, WorkerStep]"
  let ?b = "example_run 1 [WorkerStep, WorkerStep, WorkerStep, WorkerStep, CancelCheck,
              WorkerStep, WorkerStep, CancelUpdate]"
  have a1: "is_terminal (get_state ''t1'' (TASKS ?a))" by code_simp
  have a2: "cancel_handlers ?a = 1" by code_simp
  have a3: "fld ''t1'' ''cancel_requested'' (TASKS ?a) = Some (VBool False)" by code_simp
  have a4: "fld ''t1'' ''message'' (TASKS ?a) = Some (VStr (msg_finished @ ''1'' @ msg_rows))"
    by code_simp
  have b1: "fld ''t1'' ''status'' (TASKS ?b) = Some (VStr ''done'')" by code_simp
  have b2: "fld ''t1'' ''cancel_requested'' (TASKS ?b) = Some (VBool True)" by code_simp
  have b3: "fld ''t1'' ''message'' (TASKS ?b) = Some (VStr msg_canceling)" by code_simp
  have ne: "get_state ''t1'' (TASKS ?b) \<noteq> get_state ''t1'' (TASKS ?a)"
  proof
    assume "get_state ''t1'' (TASKS ?b) = get_state ''t1'' (TASKS ?a)"
    then have "fld ''t1'' ''cancel_requested'' (TASKS ?b) = fld ''t1'' ''cancel_requested'' (TASKS ?a)"
      by (simp add: fld_def)
    with a3 b2 show False by simp
  qed
  from a1 a2 a3 a4 b1 b2 b3 ne show ?thesis by blast
qed

text \<open>
  Apart from these two fields, the entry of a finished task stays as it is until a
  cleanup thread pops it: the worker makes no update after its terminal one.
\<close>

lemma terminal_other_fields_final:
  assumes "is_terminal (get_state task_id
             (TASKS (run E task_id fp es (init_system fp filename task_id R))))"
    "CleanupPop \<notin> set es'" "k \<noteq> ''cancel_requested''" "k \<noteq> ''message''"
  shows "fld task_id k
           (TASKS (run E task_id fp es' (run E task_id fp es (init_system fp filename task_id R))))
         = fld task_id k (TASKS (run E task_id fp es (init_system fp filename task_id R)))"
proof -
  let ?s = "run E task_id fp es (init_system fp filename task_id R)"
  have inv: "inv task_id ?s" by (rule inv_reachable)
  have "pc (worker ?s) = Finally \<or> pc (worker ?s) = Exit"
    using inv assms(1)
    by (cases "pc (worker ?s)")
       (simp_all add: inv_def running_ok_def loop_ok_def is_terminal_fld)
  then show ?thesis using assms(2-4) by (rule final_run)
qed

subsection \<open>A second cancel request that overlaps the worker's cancellation\<close>

text \<open>
  Claim C7, at one input. A task with two rows and a cancel request before the first
  check. With that request alone the task ends with status \<^verbatim>\<open>canceled\<close> and the message
  of line 89. With a second request, whose snapshot is taken after the worker has seen
  the first one (the status is still \<^verbatim>\<open>running\<close>) and whose update runs after the worker
  has stored \<^verbatim>\<open>canceled\<close>, the task ends with status \<^verbatim>\<open>canceled\<close> and the message of
  line 212: two requests do not leave the task as one request does.
\<close>

theorem second_cancel_changes_canceled_task:
  "fld ''t1'' ''status'' (TASKS (example_run 2 [WorkerStep, WorkerStep, WorkerStep, CancelCheck,
        CancelUpdate, WorkerStep, WorkerStep])) = Some (VStr ''canceled'')
   \<and> fld ''t1'' ''message'' (TASKS (example_run 2 [WorkerStep, WorkerStep, WorkerStep,
        CancelCheck, CancelUpdate, WorkerStep, WorkerStep])) = Some (VStr msg_canceled)
   \<and> cancel_handlers (example_run 2 [WorkerStep, WorkerStep, WorkerStep, CancelCheck,
        CancelUpdate, WorkerStep, WorkerStep]) = 0
   \<and> pc (worker (example_run 2 [WorkerStep, WorkerStep, WorkerStep, CancelCheck,
        CancelUpdate, WorkerStep, WorkerStep])) = Finally
   \<and> fld ''t1'' ''status'' (TASKS (example_run 2 [WorkerStep, WorkerStep, WorkerStep,
        CancelCheck, CancelUpdate, WorkerStep])) = Some (VStr ''running'')
   \<and> cancel_handlers (example_run 2 [WorkerStep, WorkerStep, WorkerStep, CancelCheck,
        CancelUpdate, WorkerStep, CancelCheck]) = 1
   \<and> fld ''t1'' ''status'' (TASKS (example_run 2 [WorkerStep, WorkerStep, WorkerStep,
        CancelCheck, CancelUpdate, WorkerStep, CancelCheck, WorkerStep, CancelUpdate]))
       = Some (VStr ''canceled'')
   \<and> fld ''t1'' ''message'' (TASKS (example_run 2 [WorkerStep, WorkerStep, WorkerStep,
        CancelCheck, CancelUpdate, WorkerStep, CancelCheck, WorkerStep, CancelUpdate]))
       = Some (VStr msg_canceling)
   \<and> cancel_handlers (example_run 2 [WorkerStep, WorkerStep, WorkerStep, CancelCheck,
        CancelUpdate, WorkerStep, CancelCheck, WorkerStep, CancelUpdate]) = 0
   \<and> pc (worker (example_run 2 [WorkerStep, WorkerStep, WorkerStep, CancelCheck,
        CancelUpdate, WorkerStep, CancelCheck, WorkerStep, CancelUpdate])) = Finally
   \<and> get_state ''t1'' (TASKS (example_run 2 [WorkerStep, WorkerStep, WorkerStep,
        CancelCheck, CancelUpdate, WorkerStep, CancelCheck, WorkerStep, CancelUpdate]))
      \<noteq> get_state ''t1'' (TASKS (example_run 2 [WorkerStep, WorkerStep, WorkerStep,
        CancelCheck, CancelUpdate, WorkerStep, WorkerStep]))"
proof -
  let ?one = "example_run 2 [WorkerStep, WorkerStep, WorkerStep, CancelCheck, CancelUpdate,
                WorkerStep, WorkerStep]"
  let ?mid = "example_run 2 [WorkerStep, WorkerStep, WorkerStep, CancelCheck, CancelUpdate,
                WorkerStep]"
  let ?chk = "example_run 2 [WorkerStep, WorkerStep, WorkerStep, CancelCheck, CancelUpdate,
                WorkerStep, CancelCheck]"
  let ?two = "example_run 2 [WorkerStep, WorkerStep, WorkerStep, CancelCheck, CancelUpdate,
                WorkerStep, CancelCheck, WorkerStep, CancelUpdate]"
  have o1: "fld ''t1'' ''status'' (TASKS ?one) = Some (VStr ''canceled'')" by code_simp
  have o2: "fld ''t1'' ''message'' (TASKS ?one) = Some (VStr msg_canceled)" by code_simp
  have o3: "cancel_handlers ?one = 0" by code_simp
  have o4: "pc (worker ?one) = Finally" by code_simp
  have m1: "fld ''t1'' ''status'' (TASKS ?mid) = Some (VStr ''running'')" by code_simp
  have m2: "cancel_handlers ?chk = 1" by code_simp
  have t1: "fld ''t1'' ''status'' (TASKS ?two) = Some (VStr ''canceled'')" by code_simp
  have t2: "fld ''t1'' ''message'' (TASKS ?two) = Some (VStr msg_canceling)" by code_simp
  have t3: "cancel_handlers ?two = 0" by code_simp
  have t4: "pc (worker ?two) = Finally" by code_simp
  have differ: "msg_canceling \<noteq> msg_canceled" by code_simp
  have ne: "get_state ''t1'' (TASKS ?two) \<noteq> get_state ''t1'' (TASKS ?one)"
  proof
    assume "get_state ''t1'' (TASKS ?two) = get_state ''t1'' (TASKS ?one)"
    then have "fld ''t1'' ''message'' (TASKS ?two) = fld ''t1'' ''message'' (TASKS ?one)"
      by (simp add: fld_def)
    with o2 t2 differ show False by simp
  qed
  from o1 o2 o3 o4 m1 m2 t1 t2 t3 t4 ne show ?thesis by blast
qed

subsection \<open>The progress stream\<close>

lemma terminal_progress_event:
  "terminal_event (progress_event task_id state) = is_terminal state"
  by (auto simp: terminal_event_def progress_event_def is_terminal_def json_get_def
      split: option.splits)

lemma terminal_not_found_event: "terminal_event (not_found_event task_id)"
  by (simp add: terminal_event_def not_found_event_def)

lemma event_stream_shape:
  "event_stream task_id Rs = (evs, ended) \<Longrightarrow>
   (\<forall>ev \<in> set (butlast evs). \<not> terminal_event ev)
   \<and> (ended \<longleftrightarrow> evs \<noteq> [] \<and> terminal_event (last evs))"
proof (induction Rs arbitrary: evs ended)
  case Nil
  then show ?case by simp
next
  case (Cons R later)
  let ?st = "get_state task_id R"
  show ?case
  proof (cases "?st = []")
    case True
    then show ?thesis using Cons.prems by (auto simp: terminal_not_found_event)
  next
    case False
    show ?thesis
    proof (cases "is_terminal ?st")
      case True
      then show ?thesis using Cons.prems False by (auto simp: terminal_progress_event)
    next
      case nt: False
      obtain evs' ended' where r: "event_stream task_id later = (evs', ended')"
        by (cases "event_stream task_id later")
      have e: "evs = progress_event task_id ?st # evs'" "ended = ended'"
        using Cons.prems False nt r by simp_all
      note IH = Cons.IH [OF r]
      show ?thesis
        using IH nt unfolding e by (auto simp: terminal_progress_event)
    qed
  qed
qed

lemma event_stream_until_terminal:
  assumes "\<forall>B \<in> set before. \<not> is_terminal (get_state task_id B) \<and> get_state task_id B \<noteq> []"
    "is_terminal (get_state task_id R)"
  shows "event_stream task_id (before @ R # later)
         = (map (\<lambda>B. progress_event task_id (get_state task_id B)) (before @ [R]), True)"
  using assms
proof (induction before)
  case Nil
  then have "get_state task_id R \<noteq> []" using is_terminal_Nil by auto
  with Nil show ?case by (simp add: Let_def)
next
  case (Cons B before)
  then show ?case by simp
qed

text \<open>
  Claim C8. Of what the stream has emitted, nothing but the last event is terminal, and
  the stream has left its loop exactly when its last event is terminal (a snapshot with
  status \<^verbatim>\<open>done\<close>, \<^verbatim>\<open>error\<close> or \<^verbatim>\<open>canceled\<close>, or the not-found event). When the polls see
  the task running and then terminal, the stream emits those snapshots up to the first
  terminal one and ends there. When the first poll finds no entry, the stream emits the
  not-found event alone and ends. The not-found event is a \<^verbatim>\<open>data\<close> event, no progress
  event equals it, and its status is not \<^verbatim>\<open>running\<close>.
\<close>

theorem event_stream_ends_at_terminal:
  "(\<forall>evs ended. event_stream task_id Rs = (evs, ended) \<longrightarrow>
       (\<forall>ev \<in> set (butlast evs). \<not> terminal_event ev)
       \<and> (ended \<longleftrightarrow> evs \<noteq> [] \<and> terminal_event (last evs)))
   \<and> ((\<forall>B \<in> set before. \<not> is_terminal (get_state task_id B) \<and> get_state task_id B \<noteq> [])
        \<and> is_terminal (get_state task_id R) \<longrightarrow>
        event_stream task_id (before @ R # later)
          = (map (\<lambda>B. progress_event task_id (get_state task_id B)) (before @ [R]), True))
   \<and> (R task_id = None \<longrightarrow> event_stream task_id (R # later) = ([not_found_event task_id], True))
   \<and> not_found_event task_id \<noteq> progress_event task_id' state
   \<and> event_status (not_found_event task_id) \<noteq> Some (JVal (VStr ''running''))"
proof -
  have 1: "\<forall>evs ended. event_stream task_id Rs = (evs, ended) \<longrightarrow>
       (\<forall>ev \<in> set (butlast evs). \<not> terminal_event ev)
       \<and> (ended \<longleftrightarrow> evs \<noteq> [] \<and> terminal_event (last evs))"
    using event_stream_shape by blast
  have 2: "(\<forall>B \<in> set before. \<not> is_terminal (get_state task_id B) \<and> get_state task_id B \<noteq> [])
        \<and> is_terminal (get_state task_id R) \<longrightarrow>
        event_stream task_id (before @ R # later)
          = (map (\<lambda>B. progress_event task_id (get_state task_id B)) (before @ [R]), True)"
    using event_stream_until_terminal by blast
  have 3: "R task_id = None \<longrightarrow> event_stream task_id (R # later) = ([not_found_event task_id], True)"
    by (simp add: get_state_def)
  have 4: "not_found_event task_id \<noteq> progress_event task_id' state"
    by (simp add: not_found_event_def progress_event_def)
  have 5: "event_status (not_found_event task_id) \<noteq> Some (JVal (VStr ''running''))"
    by (simp add: not_found_event_def)
  from 1 2 3 4 5 show ?thesis by blast
qed

theorem event_stream_ends_at_terminal_witness:
  "event_stream ''t1''
     ([[''t1'' \<mapsto> [(''status'', VStr ''running'')]], [''t1'' \<mapsto> [(''status'', VStr ''running'')]]]
      @ [''t1'' \<mapsto> [(''status'', VStr ''done'')]] # [[''t1'' \<mapsto> [(''status'', VStr ''done'')]]])
   = ([progress_event ''t1'' [(''status'', VStr ''running'')],
       progress_event ''t1'' [(''status'', VStr ''running'')],
       progress_event ''t1'' [(''status'', VStr ''done'')]], True)
   \<and> event_stream ''t1'' (Map.empty # [[''t1'' \<mapsto> [(''status'', VStr ''done'')]]])
      = ([not_found_event ''t1''], True)"
proof -
  let ?run = "[''t1'' \<mapsto> [(''status'', VStr ''running'')]]"
  let ?done = "[''t1'' \<mapsto> [(''status'', VStr ''done'')]]"
  have h1: "\<forall>B \<in> set [?run, ?run].
              \<not> is_terminal (get_state ''t1'' B) \<and> get_state ''t1'' B \<noteq> []"
    by (simp add: get_state_def is_terminal_def dict_get_def)
  have h2: "is_terminal (get_state ''t1'' ?done)"
    by (simp add: get_state_def is_terminal_def dict_get_def)
  have h3: "Map.empty ''t1'' = (None :: pydict option)" by simp
  show ?thesis
    using h1 h2 h3
      event_stream_ends_at_terminal [of "''t1''" "[]" "[?run, ?run]" ?done "[?done]"]
      event_stream_ends_at_terminal [of "''t1''" "[]" "[]" Map.empty "[?done]"]
    by (simp add: get_state_def)
qed

subsection \<open>Cancellation\<close>

lemma pending_running:
  assumes "cancel_pending E task_id n s"
  shows "running_ok task_id s"
  using assms
  by (cases "pc (worker s)")
     (simp_all add: cancel_pending_def steps_to_canceled_def inv_def loop_ok_def)

lemma fld_cancel_requested_update:
  "present task_id R \<Longrightarrow>
   fld task_id ''cancel_requested'' (safe_update task_id cancel_kv R) = Some (VBool True)"
  by (simp add: fld_safe_update cancel_kv_def)

lemma cancel_in_other:
  assumes "ev \<noteq> WorkerStep" "cancel_in E task_id n c s"
  shows "cancel_in E task_id n c (step E task_id fp ev s)"
proof (cases "n = 0")
  case True
  then have "canceled_with task_id c s" using assms(2) by (simp add: cancel_in_def)
  then have "canceled_with task_id c (step E task_id fp ev s)"
    using assms(1)
    by (cases ev)
       (simp_all add: canceled_with_def step_def Let_def fld_cancel_update present_safe_update)
  then show ?thesis using True by (simp add: cancel_in_def)
next
  case False
  then have p: "cancel_pending E task_id n s" and c: "current_at_cancel task_id s = c"
    using assms(2) by (simp_all add: cancel_in_def)
  have r: "running_ok task_id s" using p by (rule pending_running)
  have w: "worker (step E task_id fp ev s) = worker s"
    using assms(1) by (rule step_worker_other)
  have i: "inv task_id (step E task_id fp ev s)"
    using p by (simp add: cancel_pending_def inv_step)
  have f: "truthy_opt (fld task_id ''cancel_requested'' (TASKS (step E task_id fp ev s)))"
    using assms(1) p r
    by (cases ev)
       (simp_all add: step_def Let_def cancel_pending_def running_ok_def
         fld_cancel_requested_update truthy_opt_def)
  have cur: "fld task_id ''current'' (TASKS (step E task_id fp ev s))
             = fld task_id ''current'' (TASKS s)"
    using assms(1) r
    by (cases ev) (simp_all add: step_def Let_def running_ok_def fld_cancel_update)
  have "cancel_pending E task_id n (step E task_id fp ev s)"
    using p i f w by (simp add: cancel_pending_def)
  moreover have "current_at_cancel task_id (step E task_id fp ev s) = c"
    using c w cur by (simp add: current_at_cancel_def split: pc.splits)
  ultimately show ?thesis using False by (simp add: cancel_in_def)
qed

lemma percent_of_Inr: "total_n \<noteq> 0 \<Longrightarrow> \<exists>p. percent_of total_n idx = Inr p"
  by (simp add: percent_of_def py_truediv_def)

lemma cancel_in_worker:
  assumes "cancel_in E task_id (Suc n) c s"
  shows "cancel_in E task_id n c (step E task_id fp WorkerStep s)"
proof -
  let ?s' = "step E task_id fp WorkerStep s"
  have p: "cancel_pending E task_id (Suc n) s" and c: "current_at_cancel task_id s = c"
    using assms by (simp_all add: cancel_in_def)
  have r: "running_ok task_id s" using p by (rule pending_running)
  have inv: "inv task_id s" using p by (simp add: cancel_pending_def)
  have flag: "truthy_opt (fld task_id ''cancel_requested'' (TASKS s))"
    using p by (simp add: cancel_pending_def)
  have inv': "inv task_id ?s'" using inv by (rule inv_step)
  have d: "steps_to_canceled E (worker s) = Some (Suc n)"
    using p by (simp add: cancel_pending_def)
  show ?thesis
  proof (cases "pc (worker s)")
    case Rows
    then have "steps_to_canceled E (worker ?s') = Some 2" "TASKS ?s' = TASKS s"
      "current_at_cancel task_id ?s' = c" "n = 2"
      using d c
      by (simp_all add: steps_to_canceled_def step_def worker_step_def current_at_cancel_def
          split: if_splits)
    then show ?thesis using inv' flag by (simp add: cancel_in_def cancel_pending_def)
  next
    case (Check idx)
    then have "steps_to_canceled E (worker ?s') = Some 1" "TASKS ?s' = TASKS s"
      "current_at_cancel task_id ?s' = c" "n = 1"
      using d c flag
      by (simp_all add: steps_to_canceled_def step_def worker_step_def current_at_cancel_def
          fld_def)
    then show ?thesis using inv' flag by (simp add: cancel_in_def cancel_pending_def)
  next
    case Canceling
    then have "n = 0" using d by (simp add: steps_to_canceled_def)
    moreover have "canceled_with task_id c ?s'"
      using Canceling r c
      by (simp add: canceled_with_def step_def worker_step_def running_ok_def
          current_at_cancel_def fld_safe_update present_safe_update canceled_kv_def)
    ultimately show ?thesis by (simp add: cancel_in_def)
  next
    case (Unit idx)
    then have u: "idx < total_w (worker s)" "unit_exn E idx = None" "n = 2"
      using d by (simp_all add: steps_to_canceled_def split: if_splits)
    have b: "1 \<le> idx" "idx \<le> total_w (worker s)"
      using inv Unit by (simp_all add: inv_def loop_ok_def)
    obtain eta where eta:
      "eta_seconds (total_w (worker s)) idx (start_w (worker s)) (time_unit E idx) = Inr eta"
      using eta_nonneg [OF b] by blast
    obtain pct where pct: "percent_of (total_w (worker s)) idx = Inr pct"
      using percent_of_Inr [of "total_w (worker s)" idx] u(1) by auto
    have s': "?s' = s\<lparr>TASKS := safe_update task_id
                          (progress_kv (total_w (worker s)) idx pct eta) (TASKS s),
                        worker := (worker s)\<lparr>pc := Check (Suc idx)\<rparr>\<rparr>"
      using Unit u eta pct by (simp add: step_def worker_step_def unit_of_work_def)
    have "steps_to_canceled E (worker ?s') = Some 2"
      by (simp add: s' steps_to_canceled_def)
    moreover have "truthy_opt (fld task_id ''cancel_requested'' (TASKS ?s'))"
      using flag r by (simp add: s' fld_safe_update progress_kv_def running_ok_def)
    moreover have "current_at_cancel task_id ?s' = c"
    proof -
      have "c = Some (VInt (int idx))" using c Unit by (simp add: current_at_cancel_def)
      then show ?thesis
        using r
        by (simp add: s' current_at_cancel_def fld_safe_update progress_kv_def running_ok_def)
    qed
    ultimately show ?thesis using inv' u(3) by (simp add: cancel_in_def cancel_pending_def)
  qed (use d in \<open>simp_all add: steps_to_canceled_def\<close>)
qed

lemma cancel_in_run:
  "cancel_in E task_id n c s \<Longrightarrow> count_list es WorkerStep = n \<Longrightarrow>
   cancel_in E task_id 0 c (run E task_id fp es s)"
proof (induction es arbitrary: n s)
  case Nil
  then show ?case by simp
next
  case (Cons ev es)
  show ?case
  proof (cases "ev = WorkerStep")
    case True
    then obtain m where m: "n = Suc m" "count_list es WorkerStep = m"
      using Cons.prems(2) by auto
    have "cancel_in E task_id m c (step E task_id fp ev s)"
      using cancel_in_worker [of E task_id m c s fp] Cons.prems(1) m True by simp
    then show ?thesis using Cons.IH [OF _ m(2)] by simp
  next
    case False
    then have "count_list es WorkerStep = n" using Cons.prems(2) by simp
    moreover have "cancel_in E task_id n c (step E task_id fp ev s)"
      using False Cons.prems(1) by (rule cancel_in_other)
    ultimately show ?thesis using Cons.IH by simp
  qed
qed

lemma current_at_cancel_bounds:
  assumes "inv task_id s" "steps_to_canceled E (worker s) = Some n"
  shows "\<exists>c c'. fld task_id ''current'' (TASKS s) = Some (VInt c)
           \<and> current_at_cancel task_id s = Some (VInt c') \<and> c \<le> c' \<and> c' \<le> c + 1"
  using assms
  by (cases "pc (worker s)")
     (auto simp: steps_to_canceled_def inv_def loop_ok_def running_ok_def current_ok_def
       current_at_cancel_def split: option.splits pyval.splits if_splits)

text \<open>
  Claim C3, as amended. In every state the threads can reach in which \<^verbatim>\<open>cancel_requested\<close>
  is set and the worker is before the loop with rows to translate, at a check, after a
  check that saw the request, or in a unit of work that is not the last one and does not
  fail: the status is \<^verbatim>\<open>running\<close>, and however the threads interleave, when the worker has
  taken its next \<open>n\<close> steps (\<open>n\<close> at most 3) the status is \<^verbatim>\<open>canceled\<close>, no download name
  is set, and \<^verbatim>\<open>current\<close> has grown by at most one.
\<close>

theorem cancel_observed_at_next_checkpoint:
  "(let s = run E task_id fp es0 (init_system fp filename task_id R)
    in truthy_opt (fld task_id ''cancel_requested'' (TASKS s))
       \<and> steps_to_canceled E (worker s) = Some n
       \<and> count_list es WorkerStep = n \<longrightarrow>
       (let s' = run E task_id fp es s
        in n \<le> 3
           \<and> fld task_id ''status'' (TASKS s) = Some (VStr ''running'')
           \<and> fld task_id ''status'' (TASKS s') = Some (VStr ''canceled'')
           \<and> fld task_id ''download_filename'' (TASKS s') = None
           \<and> (\<exists>c c'. fld task_id ''current'' (TASKS s) = Some (VInt c)
                 \<and> fld task_id ''current'' (TASKS s') = Some (VInt c')
                 \<and> c \<le> c' \<and> c' \<le> c + 1)))"
proof -
  let ?s = "run E task_id fp es0 (init_system fp filename task_id R)"
  let ?s' = "run E task_id fp es ?s"
  have "n \<le> 3
        \<and> fld task_id ''status'' (TASKS ?s) = Some (VStr ''running'')
        \<and> fld task_id ''status'' (TASKS ?s') = Some (VStr ''canceled'')
        \<and> fld task_id ''download_filename'' (TASKS ?s') = None
        \<and> (\<exists>c c'. fld task_id ''current'' (TASKS ?s) = Some (VInt c)
              \<and> fld task_id ''current'' (TASKS ?s') = Some (VInt c')
              \<and> c \<le> c' \<and> c' \<le> c + 1)"
    if flag: "truthy_opt (fld task_id ''cancel_requested'' (TASKS ?s))"
      and d: "steps_to_canceled E (worker ?s) = Some n"
      and cnt: "count_list es WorkerStep = n"
  proof -
    have inv: "inv task_id ?s" by (rule inv_reachable)
    have p: "cancel_pending E task_id n ?s"
      using inv flag d by (simp add: cancel_pending_def)
    have run: "fld task_id ''status'' (TASKS ?s) = Some (VStr ''running'')"
      using pending_running [OF p] by (simp add: running_ok_def)
    have n3: "n \<le> 3" and n0: "n \<noteq> 0"
      using d by (cases "pc (worker ?s)"; simp add: steps_to_canceled_def split: if_splits)+
    obtain c c' where cc: "fld task_id ''current'' (TASKS ?s) = Some (VInt c)"
      "current_at_cancel task_id ?s = Some (VInt c')" "c \<le> c'" "c' \<le> c + 1"
      using current_at_cancel_bounds [OF inv d] by blast
    have "cancel_in E task_id n (Some (VInt c')) ?s"
      using p cc(2) n0 by (simp add: cancel_in_def)
    then have "cancel_in E task_id 0 (Some (VInt c')) ?s'"
      using cnt by (rule cancel_in_run)
    then have "canceled_with task_id (Some (VInt c')) ?s'" by (simp add: cancel_in_def)
    then show ?thesis using run n3 cc by (auto simp: canceled_with_def)
  qed
  then show ?thesis unfolding Let_def by blast
qed

theorem cancel_observed_at_next_checkpoint_witness:
  "truthy_opt (fld ''t1'' ''cancel_requested''
      (TASKS (example_run 2 [WorkerStep, WorkerStep, WorkerStep, WorkerStep, CancelCheck,
         CancelUpdate])))
   \<and> steps_to_canceled (example_env 2)
        (worker (example_run 2 [WorkerStep, WorkerStep, WorkerStep, WorkerStep, CancelCheck,
           CancelUpdate])) = Some 3
   \<and> count_list [WorkerStep, CancelCheck, WorkerStep, CancelUpdate, WorkerStep] WorkerStep = 3
   \<and> fld ''t1'' ''status''
        (TASKS (example_run 2 ([WorkerStep, WorkerStep, WorkerStep, WorkerStep, CancelCheck,
           CancelUpdate] @ [WorkerStep, CancelCheck, WorkerStep, CancelUpdate, WorkerStep])))
       = Some (VStr ''canceled'')
   \<and> fld ''t1'' ''download_filename''
        (TASKS (example_run 2 ([WorkerStep, WorkerStep, WorkerStep, WorkerStep, CancelCheck,
           CancelUpdate] @ [WorkerStep, CancelCheck, WorkerStep, CancelUpdate, WorkerStep])))
       = None"
proof -
  let ?first = "[WorkerStep, WorkerStep, WorkerStep, WorkerStep, CancelCheck, CancelUpdate]"
  let ?rest = "[WorkerStep, CancelCheck, WorkerStep, CancelUpdate, WorkerStep]"
  have flag: "truthy_opt (fld ''t1'' ''cancel_requested'' (TASKS (example_run 2 ?first)))"
    by code_simp
  have pc: "pc (worker (example_run 2 ?first)) = Unit 1" by code_simp
  have tot: "total_w (worker (example_run 2 ?first)) = 2" by code_simp
  have dist: "steps_to_canceled (example_env 2) (worker (example_run 2 ?first)) = Some 3"
    by (simp add: steps_to_canceled_def pc tot example_env_def)
  have cnt: "count_list ?rest WorkerStep = 3" by simp
  have e: "run (example_env 2) ''t1'' ''/tmp/x/f.xlsx'' (?first @ ?rest) example_init
           = run (example_env 2) ''t1'' ''/tmp/x/f.xlsx'' ?rest
               (run (example_env 2) ''t1'' ''/tmp/x/f.xlsx'' ?first example_init)"
    by (rule run_append)
  show ?thesis
    using flag dist cnt cancel_observed_at_next_checkpoint [of "example_env 2" "''t1''"
        "''/tmp/x/f.xlsx''" ?first "''f.xlsx''" Map.empty 3 ?rest]
    unfolding example_run_def e unfolding Let_def example_init_def by blast
qed

text \<open>
  Claim C3, as stated, fails when the request arrives during the last unit of work. A
  task with one row: the request is stored while the status is \<^verbatim>\<open>running\<close>, \<^verbatim>\<open>current\<close> is
  0 and \<^verbatim>\<open>total\<close> is 1; the worker meets no further check, stores \<^verbatim>\<open>done\<close> with the
  download name, and returns.
\<close>

theorem cancel_in_last_unit_not_observed:
  "fld ''t1'' ''status'' (TASKS (example_run 1 [WorkerStep, WorkerStep, WorkerStep, WorkerStep,
        CancelCheck])) = Some (VStr ''running'')
   \<and> fld ''t1'' ''current'' (TASKS (example_run 1 [WorkerStep, WorkerStep, WorkerStep,
        WorkerStep, CancelCheck])) = Some (VInt 0)
   \<and> fld ''t1'' ''total'' (TASKS (example_run 1 [WorkerStep, WorkerStep, WorkerStep, WorkerStep,
        CancelCheck])) = Some (VInt 1)
   \<and> fld ''t1'' ''cancel_requested'' (TASKS (example_run 1 [WorkerStep, WorkerStep, WorkerStep,
        WorkerStep, CancelCheck])) = Some (VBool False)
   \<and> fld ''t1'' ''cancel_requested'' (TASKS (example_run 1 [WorkerStep, WorkerStep, WorkerStep,
        WorkerStep, CancelCheck, CancelUpdate])) = Some (VBool True)
   \<and> fld ''t1'' ''status'' (TASKS (example_run 1 [WorkerStep, WorkerStep, WorkerStep, WorkerStep,
        CancelCheck, CancelUpdate])) = Some (VStr ''running'')
   \<and> fld ''t1'' ''status'' (TASKS (example_run 1 [WorkerStep, WorkerStep, WorkerStep, WorkerStep,
        CancelCheck, CancelUpdate, WorkerStep, WorkerStep, WorkerStep])) = Some (VStr ''done'')
   \<and> fld ''t1'' ''download_filename'' (TASKS (example_run 1 [WorkerStep, WorkerStep, WorkerStep,
        WorkerStep, CancelCheck, CancelUpdate, WorkerStep, WorkerStep, WorkerStep]))
       = Some (VStr (''f'' @ output_suffix))
   \<and> pc (worker (example_run 1 [WorkerStep, WorkerStep, WorkerStep, WorkerStep, CancelCheck,
        CancelUpdate, WorkerStep, WorkerStep, WorkerStep])) = Exit"
proof -
  let ?a = "example_run 1 [WorkerStep, WorkerStep, WorkerStep, WorkerStep, CancelCheck]"
  let ?b = "example_run 1 [WorkerStep, WorkerStep, WorkerStep, WorkerStep, CancelCheck,
              CancelUpdate]"
  let ?c = "example_run 1 [WorkerStep, WorkerStep, WorkerStep, WorkerStep, CancelCheck,
              CancelUpdate, WorkerStep, WorkerStep, WorkerStep]"
  have a1: "fld ''t1'' ''status'' (TASKS ?a) = Some (VStr ''running'')" by code_simp
  have a2: "fld ''t1'' ''current'' (TASKS ?a) = Some (VInt 0)" by code_simp
  have a3: "fld ''t1'' ''total'' (TASKS ?a) = Some (VInt 1)" by code_simp
  have a4: "fld ''t1'' ''cancel_requested'' (TASKS ?a) = Some (VBool False)" by code_simp
  have b1: "fld ''t1'' ''cancel_requested'' (TASKS ?b) = Some (VBool True)" by code_simp
  have b2: "fld ''t1'' ''status'' (TASKS ?b) = Some (VStr ''running'')" by code_simp
  have c1: "fld ''t1'' ''status'' (TASKS ?c) = Some (VStr ''done'')" by code_simp
  have c2: "fld ''t1'' ''download_filename'' (TASKS ?c) = Some (VStr (''f'' @ output_suffix))"
    by code_simp
  have c3: "pc (worker ?c) = Exit" by code_simp
  from a1 a2 a3 a4 b1 b2 c1 c2 c3 show ?thesis by blast
qed

end
